theory Spec2Isabelle
  imports Complex_Main "HOL-Library.List_Lexorder" "HOL-Library.Char_ord"
begin

section \<open>Python values as they come out of \<open>json.load\<close>\<close>

text \<open>
  A manifest is whatever \<open>json.load\<close> returns: \<open>None\<close>, a bool, an int, a
  (finite) float, a str, a list or a dict with string keys. A dict is kept as the list
  of its items; a key is looked up with \<open>map_of\<close>. Non-finite floats (\<open>NaN\<close>,
  \<open>Infinity\<close>), which only Python's extension of JSON has, are not represented.
\<close>

datatype json =
    JNull
  | JBool bool
  | JInt int
  | JFloat rat
  | JStr string
  | JArr "json list"
  | JObj "(string \<times> json) list"

text \<open>The exceptions the modelled code can raise.\<close>

datatype pyerror =
    OSError
  | JSONDecodeError
  | AttributeError
  | TypeError
  | KeyError
  | ValueError
  | UnicodeDecodeError
  | RuntimeError
  | CalledProcessError

type_synonym path = "string list"

text \<open>\<open>bind_err\<close> sequences two steps, the second skipped when the first raised.\<close>

definition bind_err :: "pyerror + 'a \<Rightarrow> ('a \<Rightarrow> pyerror + 'b) \<Rightarrow> pyerror + 'b" where
  "bind_err x f = (case x of Inl e \<Rightarrow> Inl e | Inr v \<Rightarrow> f v)"

text \<open>
  Python's numeric tower for \<open>==\<close> and hashing: \<open>True == 1 == 1.0\<close>. \<open>num_val\<close> is
  the number a value stands for, if it is one.
\<close>

fun num_val :: "json \<Rightarrow> rat option" where
  "num_val (JBool b) = Some (if b then 1 else 0)"
| "num_val (JInt i) = Some (of_int i)"
| "num_val (JFloat r) = Some r"
| "num_val _ = None"

text \<open>\<open>v == n\<close> for an int \<open>n\<close>: only a number of the same value is equal to it.\<close>

definition py_eq_int :: "json \<Rightarrow> int \<Rightarrow> bool" where
  "py_eq_int v n = (num_val v = Some (of_int n))"

text \<open>\<open>bool(v)\<close>, the truth value Python's \<open>if v\<close> and \<open>and\<close> test.\<close>

fun truthy :: "json \<Rightarrow> bool" where
  "truthy JNull = False"
| "truthy (JBool b) = b"
| "truthy (JInt i) = (i \<noteq> 0)"
| "truthy (JFloat r) = (r \<noteq> 0)"
| "truthy (JStr s) = (s \<noteq> [])"
| "truthy (JArr xs) = (xs \<noteq> [])"
| "truthy (JObj kvs) = (kvs \<noteq> [])"

text \<open>Lists and dicts are unhashable: using one as a dict key or set member raises TypeError.\<close>

fun hashable :: "json \<Rightarrow> bool" where
  "hashable (JArr xs) = False"
| "hashable (JObj kvs) = False"
| "hashable _ = True"

text \<open>Equality of two hashable values, as a dict or a set compares its keys.\<close>

definition key_eq :: "json \<Rightarrow> json \<Rightarrow> bool" where
  "key_eq a b =
     (case (num_val a, num_val b) of
        (Some x, Some y) \<Rightarrow> x = y
      | (None, None) \<Rightarrow> a = b
      | _ \<Rightarrow> False)"

text \<open>\<open>obj.get(key, default)\<close>: only a dict has the method.\<close>

fun py_get :: "json \<Rightarrow> string \<Rightarrow> json \<Rightarrow> pyerror + json" where
  "py_get (JObj kvs) k dflt = Inr (case map_of kvs k of Some v \<Rightarrow> v | None \<Rightarrow> dflt)"
| "py_get _ k dflt = Inl AttributeError"

text \<open>
  \<open>for x in v\<close>: a list gives its elements, a str its characters, a dict its keys;
  anything else is not iterable.
\<close>

fun py_iter :: "json \<Rightarrow> pyerror + json list" where
  "py_iter (JArr xs) = Inr xs"
| "py_iter (JStr s) = Inr (map (\<lambda>c. JStr [c]) s)"
| "py_iter (JObj kvs) = Inr (map JStr (remdups (map fst kvs)))"
| "py_iter _ = Inl TypeError"

text \<open>\<open>len(v)\<close>.\<close>

definition py_len :: "json \<Rightarrow> pyerror + nat" where
  "py_len v = bind_err (py_iter v) (\<lambda>xs. Inr (length xs))"

section \<open>The world outside the program\<close>

text \<open>
  What \<open>open\<close> followed by \<open>json.load\<close> gives for a path: the exception raised
  (\<open>OSError\<close> when the file cannot be opened, \<open>UnicodeDecodeError\<close> when its bytes
  are not text, \<open>JSONDecodeError\<close> when its text is not JSON, \<open>ValueError\<close> for an
  integer literal beyond the conversion limit), or the loaded value.
\<close>

datatype file_read = Raises pyerror | Loaded json

record world =
  read_json :: "path \<Rightarrow> file_read"
  list_dir :: "path \<Rightarrow> string list"
  sha256_json :: "json \<Rightarrow> string"

text \<open>
  \<open>list_dir w d\<close> is the names of the entries of directory \<open>d\<close>, in the order
  \<open>glob\<close> yields them; \<open>sha256_json w m\<close> is
  \<open>hashlib.sha256(json.dumps(m, sort_keys=True).encode()).hexdigest()\<close>.
\<close>

section \<open>merger.py: ManifestMerger\<close>

record merger =
  os_major :: int
  manifests :: "json list"
  manifest_hashes :: "(json \<times> string) list"

definition ManifestMerger_init :: "int \<Rightarrow> pyerror + merger" where
  "ManifestMerger_init n =
     (if n \<noteq> 8 \<and> n \<noteq> 9 then Inl ValueError
      else Inr \<lparr>os_major = n, manifests = [], manifest_hashes = []\<rparr>)"

text \<open>\<open>d[k] = v\<close> on a dict whose keys are arbitrary hashable values.\<close>

fun dict_set :: "(json \<times> 'v) list \<Rightarrow> json \<Rightarrow> 'v \<Rightarrow> (json \<times> 'v) list" where
  "dict_set [] k v = [(k, v)]"
| "dict_set ((k', v') # rest) k v =
     (if key_eq k' k then (k', v) # rest else (k', v') # dict_set rest k v)"

fun dict_lookup :: "(json \<times> 'v) list \<Rightarrow> json \<Rightarrow> 'v option" where
  "dict_lookup [] k = None"
| "dict_lookup ((k', v') # rest) k = (if key_eq k' k then Some v' else dict_lookup rest k)"

text \<open>
  \<open>Path.stem\<close>: the final component without its last suffix. A leading or a trailing
  dot does not start a suffix.
\<close>

definition path_name :: "path \<Rightarrow> string" where
  "path_name p = (if p = [] then [] else last p)"

definition rfind_dot :: "string \<Rightarrow> nat option" where
  "rfind_dot s =
     (case filter (\<lambda>i. s ! i = CHR ''.'') (rev [0..<length s]) of
        [] \<Rightarrow> None | i # _ \<Rightarrow> Some i)"

definition path_stem :: "path \<Rightarrow> string" where
  "path_stem p =
     (let name = path_name p in
      case rfind_dot name of
        None \<Rightarrow> name
      | Some i \<Rightarrow> if 0 < i \<and> i < length name - 1 then take i name else name)"

definition manifest_os_major :: "json \<Rightarrow> pyerror + json" where
  "manifest_os_major manifest =
     bind_err (py_get manifest ''os'' (JObj [])) (\<lambda>os_info. py_get os_info ''major'' JNull)"

text \<open>
  \<open>add_manifest\<close>. The merger is returned with the outcome: \<open>Inr True\<close> (added),
  \<open>Inr False\<close> (wrong OS major) or the exception raised.
\<close>

definition add_manifest :: "world \<Rightarrow> path \<Rightarrow> merger \<Rightarrow> merger \<times> (pyerror + bool)" where
  "add_manifest w p st =
     (case read_json w p of
        Raises e \<Rightarrow> (st, Inl e)
      | Loaded manifest \<Rightarrow>
          (case manifest_os_major manifest of
             Inl e \<Rightarrow> (st, Inl e)
           | Inr v \<Rightarrow>
               if \<not> py_eq_int v (os_major st) then (st, Inr False)
               else
                 (case py_get manifest ''host_id'' (JStr (path_stem p)) of
                    Inl e \<Rightarrow> (st, Inl e)
                  | Inr host_id \<Rightarrow>
                      if \<not> hashable host_id then (st, Inl TypeError)
                      else
                        (st\<lparr>manifest_hashes :=
                               dict_set (manifest_hashes st) host_id
                                 (''sha256:'' @ sha256_json w manifest),
                             manifests := manifests st @ [manifest]\<rparr>,
                         Inr True))))"

text \<open>String tests used on file names: \<open>s.endswith(suf)\<close>, \<open>s.startswith(pre)\<close>, \<open>sub in s\<close>.\<close>

definition ends_with :: "string \<Rightarrow> string \<Rightarrow> bool" where
  "ends_with s suf = (length suf \<le> length s \<and> drop (length s - length suf) s = suf)"

definition starts_with :: "string \<Rightarrow> string \<Rightarrow> bool" where
  "starts_with s pre = (take (length pre) s = pre)"

fun contains :: "string \<Rightarrow> string \<Rightarrow> bool" where
  "contains [] sub = (sub = [])"
| "contains (c # cs) sub = (starts_with (c # cs) sub \<or> contains cs sub)"

text \<open>
  \<open>add_manifests_from_directory\<close>. The first loop runs over \<open>glob("*-manifest.json")\<close>
  and lets every exception through; the second runs over \<open>glob("*.json")\<close>, skips the
  names containing \<open>-manifest\<close> and swallows \<open>JSONDecodeError\<close> and \<open>KeyError\<close>.
\<close>

fun first_pass :: "world \<Rightarrow> path \<Rightarrow> string list \<Rightarrow> merger \<Rightarrow> nat \<Rightarrow> merger \<times> (pyerror + nat)" where
  "first_pass w d [] st count = (st, Inr count)"
| "first_pass w d (n # ns) st count =
     (case add_manifest w (d @ [n]) st of
        (st', Inl e) \<Rightarrow> (st', Inl e)
      | (st', Inr added) \<Rightarrow> first_pass w d ns st' (if added then count + 1 else count))"

fun second_pass :: "world \<Rightarrow> path \<Rightarrow> string list \<Rightarrow> merger \<Rightarrow> nat \<Rightarrow> merger \<times> (pyerror + nat)" where
  "second_pass w d [] st count = (st, Inr count)"
| "second_pass w d (n # ns) st count =
     (if contains n ''-manifest'' then second_pass w d ns st count
      else
        (case add_manifest w (d @ [n]) st of
           (st', Inl e) \<Rightarrow>
             if e = JSONDecodeError \<or> e = KeyError then second_pass w d ns st' count
             else (st', Inl e)
         | (st', Inr added) \<Rightarrow> second_pass w d ns st' (if added then count + 1 else count)))"

definition add_manifests_from_directory :: "world \<Rightarrow> path \<Rightarrow> merger \<Rightarrow> merger \<times> (pyerror + nat)" where
  "add_manifests_from_directory w d st =
     (case first_pass w d (filter (\<lambda>n. ends_with n ''-manifest.json'') (list_dir w d)) st 0 of
        (st', Inl e) \<Rightarrow> (st', Inl e)
      | (st', Inr count) \<Rightarrow>
          second_pass w d (filter (\<lambda>n. ends_with n ''.json'') (list_dir w d)) st' count)"

text \<open>
  \<open>get_merged_installed_rpms\<close>. The result dict maps a package name to the set of
  NEVRAs seen; it is kept as the list of its items in insertion order, each set as the
  list of its distinct members.
\<close>

definition set_add :: "json list \<Rightarrow> json \<Rightarrow> json list" where
  "set_add vs v = (if \<exists>u \<in> set vs. key_eq u v then vs else vs @ [v])"

fun add_nevra :: "(json \<times> json list) list \<Rightarrow> json \<Rightarrow> json \<Rightarrow> (json \<times> json list) list" where
  "add_nevra [] name nevra = [(name, [nevra])]"
| "add_nevra ((k, vs) # rest) name nevra =
     (if key_eq k name then (k, set_add vs nevra) # rest
      else (k, vs) # add_nevra rest name nevra)"

definition merge_rpm :: "(json \<times> json list) list \<Rightarrow> json \<Rightarrow> pyerror + (json \<times> json list) list" where
  "merge_rpm all_packages rpm =
     bind_err (py_get rpm ''name'' (JStr [])) (\<lambda>name.
     bind_err (py_get rpm ''nevra'' (JStr [])) (\<lambda>nevra.
       if truthy name \<and> truthy nevra then
         (if \<not> hashable name \<or> \<not> hashable nevra then Inl TypeError
          else Inr (add_nevra all_packages name nevra))
       else Inr all_packages))"

fun merge_rpms :: "(json \<times> json list) list \<Rightarrow> json list \<Rightarrow> pyerror + (json \<times> json list) list" where
  "merge_rpms all_packages [] = Inr all_packages"
| "merge_rpms all_packages (rpm # rpms) =
     bind_err (merge_rpm all_packages rpm) (\<lambda>acc. merge_rpms acc rpms)"

fun merge_manifests :: "(json \<times> json list) list \<Rightarrow> json list \<Rightarrow> pyerror + (json \<times> json list) list" where
  "merge_manifests all_packages [] = Inr all_packages"
| "merge_manifests all_packages (manifest # ms) =
     bind_err (bind_err (py_get manifest ''installed_rpms'' (JArr [])) py_iter) (\<lambda>rpms.
     bind_err (merge_rpms all_packages rpms) (\<lambda>acc. merge_manifests acc ms))"

definition get_merged_installed_rpms :: "merger \<Rightarrow> pyerror + (json \<times> json list) list" where
  "get_merged_installed_rpms st = merge_manifests [] (manifests st)"

text \<open>\<open>get_package_to_hosts_map\<close>: package name to the list of host ids, with repetitions.\<close>

fun append_host :: "(json \<times> json list) list \<Rightarrow> json \<Rightarrow> json \<Rightarrow> (json \<times> json list) list" where
  "append_host [] name host_id = [(name, [host_id])]"
| "append_host ((k, hs) # rest) name host_id =
     (if key_eq k name then (k, hs @ [host_id]) # rest
      else (k, hs) # append_host rest name host_id)"

fun hosts_rpms :: "json \<Rightarrow> (json \<times> json list) list \<Rightarrow> json list \<Rightarrow> pyerror + (json \<times> json list) list" where
  "hosts_rpms host_id package_hosts [] = Inr package_hosts"
| "hosts_rpms host_id package_hosts (rpm # rpms) =
     bind_err (py_get rpm ''name'' (JStr [])) (\<lambda>name.
       if truthy name then
         (if \<not> hashable name then Inl TypeError
          else hosts_rpms host_id (append_host package_hosts name host_id) rpms)
       else hosts_rpms host_id package_hosts rpms)"

fun hosts_manifests :: "(json \<times> json list) list \<Rightarrow> json list \<Rightarrow> pyerror + (json \<times> json list) list" where
  "hosts_manifests package_hosts [] = Inr package_hosts"
| "hosts_manifests package_hosts (manifest # ms) =
     bind_err (py_get manifest ''host_id'' (JStr ''unknown'')) (\<lambda>host_id.
     bind_err (bind_err (py_get manifest ''installed_rpms'' (JArr [])) py_iter) (\<lambda>rpms.
     bind_err (hosts_rpms host_id package_hosts rpms) (\<lambda>acc. hosts_manifests acc ms)))"

definition get_package_to_hosts_map :: "merger \<Rightarrow> pyerror + (json \<times> json list) list" where
  "get_package_to_hosts_map st = hosts_manifests [] (manifests st)"

text \<open>\<open>get_host_summary\<close>: one row per entry of \<open>self.manifests\<close>, in order.\<close>

record host_summary =
  hs_host_id :: json
  hs_manifest_hash :: string
  hs_os_minor :: json
  hs_arch :: json
  hs_installed_count :: nat
  hs_timestamp :: json

definition summary_row :: "merger \<Rightarrow> json \<Rightarrow> pyerror + host_summary" where
  "summary_row st manifest =
     bind_err (py_get manifest ''host_id'' (JStr ''unknown'')) (\<lambda>host_id.
       if \<not> hashable host_id then Inl TypeError
       else
         bind_err (bind_err (py_get manifest ''os'' (JObj [])) (\<lambda>os_info. py_get os_info ''minor'' (JInt 0)))
           (\<lambda>os_minor.
         bind_err (py_get manifest ''arch'' (JStr ''x86_64'')) (\<lambda>arch.
         bind_err (bind_err (py_get manifest ''installed_rpms'' (JArr [])) py_len) (\<lambda>installed_count.
         bind_err (py_get manifest ''timestamp'' (JStr [])) (\<lambda>timestamp.
           Inr \<lparr>hs_host_id = host_id,
                hs_manifest_hash =
                  (case dict_lookup (manifest_hashes st) host_id of Some h \<Rightarrow> h | None \<Rightarrow> []),
                hs_os_minor = os_minor,
                hs_arch = arch,
                hs_installed_count = installed_count,
                hs_timestamp = timestamp\<rparr>)))))"

fun summary_rows :: "merger \<Rightarrow> json list \<Rightarrow> pyerror + host_summary list" where
  "summary_rows st [] = Inr []"
| "summary_rows st (manifest # ms) =
     bind_err (summary_row st manifest) (\<lambda>row.
     bind_err (summary_rows st ms) (\<lambda>rows. Inr (row # rows)))"

definition get_host_summary :: "merger \<Rightarrow> pyerror + host_summary list" where
  "get_host_summary st = summary_rows st (manifests st)"

text \<open>
  A caller's use of a merger: a sequence of the two adding calls. An exception of one
  call is the caller's to catch; the merger stays as the call left it.
\<close>

datatype merger_call = AddManifest path | AddFromDirectory path

fun run_call :: "world \<Rightarrow> merger_call \<Rightarrow> merger \<Rightarrow> merger" where
  "run_call w (AddManifest p) st = fst (add_manifest w p st)"
| "run_call w (AddFromDirectory d) st = fst (add_manifests_from_directory w d st)"

fun run_calls :: "world \<Rightarrow> merger_call list \<Rightarrow> merger \<Rightarrow> merger" where
  "run_calls w [] st = st"
| "run_calls w (c # cs) st = run_calls w cs (run_call w c st)"

text \<open>The OS major of a loaded file differs from (resp. equals) the target \<open>t\<close>.\<close>

definition os_major_differs :: "int \<Rightarrow> file_read \<Rightarrow> bool" where
  "os_major_differs t fr =
     (case fr of
        Loaded m \<Rightarrow> (case manifest_os_major m of Inr v \<Rightarrow> \<not> py_eq_int v t | Inl e \<Rightarrow> False)
      | Raises e \<Rightarrow> False)"

definition os_major_matches :: "int \<Rightarrow> json \<Rightarrow> bool" where
  "os_major_matches t m = (case manifest_os_major m of Inr v \<Rightarrow> py_eq_int v t | Inl e \<Rightarrow> False)"

text \<open>
  The three ways \<open>add_manifest\<close> can end, read off the file. \<open>accepted\<close>: the file
  loads as a dict whose \<open>os\<close> is a dict (or absent) with the target's major and whose
  \<open>host_id\<close> is absent or hashable. \<open>os_major_differs\<close> above: it loads as a dict
  whose \<open>os\<close> is a dict (or absent) with another major. \<open>decided\<close>: one of the two.
  \<open>swallowed\<close>: loading raises one of the two exceptions the second loop of
  \<open>add_manifests_from_directory\<close> catches.
\<close>

definition host_id_usable :: "json \<Rightarrow> path \<Rightarrow> bool" where
  "host_id_usable m p =
     (case py_get m ''host_id'' (JStr (path_stem p)) of Inr h \<Rightarrow> hashable h | Inl e \<Rightarrow> False)"

definition accepted :: "world \<Rightarrow> int \<Rightarrow> path \<Rightarrow> bool" where
  "accepted w t p =
     (case read_json w p of
        Loaded m \<Rightarrow> os_major_matches t m \<and> host_id_usable m p
      | Raises e \<Rightarrow> False)"

definition decided :: "world \<Rightarrow> int \<Rightarrow> path \<Rightarrow> bool" where
  "decided w t p = (accepted w t p \<or> os_major_differs t (read_json w p))"

definition swallowed :: "world \<Rightarrow> path \<Rightarrow> bool" where
  "swallowed w p = (read_json w p = Raises JSONDecodeError \<or> read_json w p = Raises KeyError)"

text \<open>
  The value a path loads to; the file names each loop of
  \<open>add_manifests_from_directory\<close> hands to \<open>add_manifest\<close>; the manifests of the
  accepted files among a list of names; and a directory every file of which the first
  loop decides and the second decides or swallows.
\<close>

definition loaded :: "world \<Rightarrow> path \<Rightarrow> json" where
  "loaded w p = (case read_json w p of Loaded m \<Rightarrow> m | Raises e \<Rightarrow> JNull)"

definition manifest_files :: "world \<Rightarrow> path \<Rightarrow> string list" where
  "manifest_files w d = filter (\<lambda>n. ends_with n ''-manifest.json'') (list_dir w d)"

definition other_json_files :: "world \<Rightarrow> path \<Rightarrow> string list" where
  "other_json_files w d =
     filter (\<lambda>n. \<not> contains n ''-manifest'') (filter (\<lambda>n. ends_with n ''.json'') (list_dir w d))"

definition dir_files :: "world \<Rightarrow> path \<Rightarrow> string list" where
  "dir_files w d = manifest_files w d @ other_json_files w d"

definition accepted_from :: "world \<Rightarrow> int \<Rightarrow> path \<Rightarrow> string list \<Rightarrow> json list" where
  "accepted_from w t d ns =
     map (\<lambda>n. loaded w (d @ [n])) (filter (\<lambda>n. accepted w t (d @ [n])) ns)"

definition ingestible :: "world \<Rightarrow> int \<Rightarrow> path \<Rightarrow> bool" where
  "ingestible w t d \<longleftrightarrow>
     list_all (\<lambda>n. decided w t (d @ [n])) (manifest_files w d) \<and>
     list_all (\<lambda>n. decided w t (d @ [n]) \<or> swallowed w (d @ [n])) (other_json_files w d)"

subsection \<open>The test fixtures of \<open>tests/conftest.py\<close>\<close>

definition rpm_entry :: "string \<Rightarrow> string \<Rightarrow> string \<Rightarrow> string \<Rightarrow> string \<Rightarrow> string \<Rightarrow> json" where
  "rpm_entry name epoch version release arch nevra =
     JObj [(''name'', JStr name), (''epoch'', JStr epoch), (''version'', JStr version),
           (''release'', JStr release), (''arch'', JStr arch), (''nevra'', JStr nevra)]"

definition sample_manifest_dict :: "(string \<times> json) list" where
  "sample_manifest_dict =
     [(''schema_version'', JStr ''1.0''),
      (''host_id'', JStr ''test-host-01''),
      (''os'', JObj [(''name'', JStr ''Red Hat Enterprise Linux''), (''major'', JInt 9),
                     (''minor'', JInt 6), (''id'', JStr ''rhel'')]),
      (''arch'', JStr ''x86_64''),
      (''kernel_version'', JStr ''5.14.0-427.el9.x86_64''),
      (''enabled_repos'',
         JArr [JObj [(''id'', JStr ''rhel-9-for-x86_64-baseos-rpms''), (''name'', JStr ''RHEL 9 BaseOS'')],
               JObj [(''id'', JStr ''rhel-9-for-x86_64-appstream-rpms''), (''name'', JStr ''RHEL 9 AppStream'')]]),
      (''installed_rpms'',
         JArr [rpm_entry ''bash'' ''0'' ''5.1.8'' ''6.el9'' ''x86_64'' ''bash-5.1.8-6.el9.x86_64'',
               rpm_entry ''kernel'' ''0'' ''5.14.0'' ''427.el9'' ''x86_64'' ''kernel-5.14.0-427.el9.x86_64'',
               rpm_entry ''openssl'' ''1'' ''3.0.7'' ''25.el9'' ''x86_64'' ''openssl-1:3.0.7-25.el9.x86_64'']),
      (''timestamp'', JStr ''2024-01-15T12:00:00Z''),
      (''collector_version'', JStr ''1.0.0'')]"

definition sample_manifest :: json where
  "sample_manifest = JObj sample_manifest_dict"

definition sample_manifest_rhel8 :: json where
  "sample_manifest_rhel8 =
     JObj [(''schema_version'', JStr ''1.0''),
           (''host_id'', JStr ''test-host-rhel8''),
           (''os'', JObj [(''name'', JStr ''Red Hat Enterprise Linux''), (''major'', JInt 8),
                          (''minor'', JInt 10), (''id'', JStr ''rhel'')]),
           (''arch'', JStr ''x86_64''),
           (''kernel_version'', JStr ''4.18.0-553.el8.x86_64''),
           (''enabled_repos'',
              JArr [JObj [(''id'', JStr ''rhel-8-for-x86_64-baseos-rpms''), (''name'', JStr ''RHEL 8 BaseOS'')]]),
           (''installed_rpms'',
              JArr [rpm_entry ''bash'' ''0'' ''4.4.20'' ''4.el8'' ''x86_64'' ''bash-4.4.20-4.el8.x86_64'']),
           (''timestamp'', JStr ''2024-01-15T12:00:00Z''),
           (''collector_version'', JStr ''1.0.0'')]"

text \<open>
  The directory of the \<open>manifest_dir\<close> fixture: the RHEL 9 and the RHEL 8 manifest. The
  digests stand for the real SHA-256 values.
\<close>

definition sample_world :: world where
  "sample_world =
     \<lparr>read_json = (\<lambda>p.
        if p = [''manifests'', ''test-host-01-manifest.json''] then Loaded sample_manifest
        else if p = [''manifests'', ''test-host-rhel8-manifest.json''] then Loaded sample_manifest_rhel8
        else Raises OSError),
      list_dir = (\<lambda>d.
        if d = [''manifests''] then [''test-host-01-manifest.json'', ''test-host-rhel8-manifest.json'']
        else []),
      sha256_json = (\<lambda>m. if m = sample_manifest then ''9f2c'' else ''07ab'')\<rparr>"

text \<open>The same directory, the RHEL 8 file replaced by another document that is not RHEL 9.\<close>

definition other_world :: world where
  "other_world =
     sample_world\<lparr>read_json := (\<lambda>p.
        if p = [''manifests'', ''test-host-rhel8-manifest.json'']
        then Loaded (JObj [(''host_id'', JStr ''intruder''),
                           (''installed_rpms'', JArr [rpm_entry ''nmap'' ''0'' ''7.9'' ''1'' ''x86_64'' ''nmap-7.9-1.x86_64''])])
        else read_json sample_world p)\<rparr>"

text \<open>The same directory with a third file, named like a manifest, whose text is not JSON.\<close>

definition broken_world :: world where
  "broken_world =
     sample_world\<lparr>read_json := (\<lambda>p.
        if p = [''manifests'', ''truncated-manifest.json''] then Raises JSONDecodeError
        else read_json sample_world p),
      list_dir := (\<lambda>d.
        if d = [''manifests'']
        then [''test-host-01-manifest.json'', ''test-host-rhel8-manifest.json'', ''truncated-manifest.json'']
        else [])\<rparr>"

text \<open>
  The same directory with two more files: \<open>notes.json\<close>, whose text is not JSON, and
  \<open>inventory.json\<close>, a RHEL 8 manifest whose \<open>host_id\<close> is a list.
\<close>

definition stray_world :: world where
  "stray_world =
     sample_world\<lparr>read_json := (\<lambda>p.
        if p = [''manifests'', ''notes.json''] then Raises JSONDecodeError
        else if p = [''manifests'', ''inventory.json'']
        then Loaded (JObj [(''host_id'', JArr []), (''os'', JObj [(''major'', JInt 8)])])
        else read_json sample_world p),
      list_dir := (\<lambda>d.
        if d = [''manifests'']
        then [''notes.json'', ''test-host-01-manifest.json'', ''inventory.json'',
              ''test-host-rhel8-manifest.json'']
        else [])\<rparr>"

definition merger9 :: merger where
  "merger9 = \<lparr>os_major = 9, manifests = [], manifest_hashes = []\<rparr>"

text \<open>
  Every accepted manifest has the merger's OS major; and two worlds agree for a target
  when they differ at most in files whose OS major is not the target's.
\<close>

definition all_match :: "merger \<Rightarrow> bool" where
  "all_match st = (\<forall>m \<in> set (manifests st). os_major_matches (os_major st) m)"

definition agree :: "int \<Rightarrow> world \<Rightarrow> world \<Rightarrow> bool" where
  "agree t w w' \<longleftrightarrow> list_dir w' = list_dir w \<and> sha256_json w' = sha256_json w \<and>
     (\<forall>p. read_json w' p = read_json w p \<or>
          (os_major_differs t (read_json w p) \<and> os_major_differs t (read_json w' p)))"

text \<open>The merger after the RHEL 9 fixture has been added once.\<close>

definition once9 :: merger where
  "once9 = \<lparr>os_major = 9, manifests = [sample_manifest],
             manifest_hashes = [(JStr ''test-host-01'', ''sha256:9f2c'')]\<rparr>"

section \<open>validator.py: ManifestValidator\<close>

text \<open>
  The validator's messages. Each constructor stands for one message format of the
  source and carries the values the f-string interpolates:
  \<open>MissingRequiredField f\<close> is \<open>"Missing required field: {f}"\<close>,
  \<open>UnknownSchemaVersion v\<close> is \<open>"Unknown schema version: {v} (expected 1.0)"\<close>,
  \<open>MissingRequiredOsField f\<close> is \<open>"Missing required os field: {f}"\<close>,
  \<open>InvalidOsMajor v\<close> is \<open>"Invalid OS major version: {v} (expected 8 or 9)"\<close>,
  \<open>OsMinorNotInteger v\<close> is \<open>"OS minor version must be integer, got: {type(v)}"\<close>,
  \<open>InvalidSystemArch v\<close> is \<open>"Invalid system architecture: {v} (expected x86_64 or aarch64)"\<close>,
  \<open>EnabledReposNotList\<close> is \<open>"enabled_repos must be a list"\<close>,
  \<open>EnabledRepoNotObject i\<close> is \<open>"enabled_repos[{i}] must be an object"\<close>,
  \<open>EnabledRepoMissingId i\<close> is \<open>"enabled_repos[{i}] missing required field: id"\<close>,
  \<open>EnabledRepoMissingName i\<close> is \<open>"enabled_repos[{i}] missing field: name"\<close>,
  \<open>InstalledRpmsNotList\<close> is \<open>"installed_rpms must be a list"\<close>,
  \<open>InstalledRpmsEmpty\<close> is \<open>"installed_rpms is empty"\<close>,
  \<open>InstalledRpmNotObject i\<close> is \<open>"installed_rpms[{i}] must be an object"\<close>,
  \<open>InstalledRpmMissingField i f\<close> is \<open>"installed_rpms[{i}] missing required field: {f}"\<close>,
  \<open>InstalledRpmUnusualArch i v\<close> is \<open>"installed_rpms[{i}] has unusual arch: {v}"\<close>,
  \<open>TimestampNotString\<close> is \<open>"timestamp must be a string"\<close> and
  \<open>TimestampNotIso s\<close> is \<open>"timestamp must be ISO 8601 format, got: {s}"\<close>.
\<close>

datatype vmsg =
    MissingRequiredField string
  | UnknownSchemaVersion json
  | MissingRequiredOsField string
  | InvalidOsMajor json
  | OsMinorNotInteger json
  | InvalidSystemArch json
  | EnabledReposNotList
  | EnabledRepoNotObject nat
  | EnabledRepoMissingId nat
  | EnabledRepoMissingName nat
  | InstalledRpmsNotList
  | InstalledRpmsEmpty
  | InstalledRpmNotObject nat
  | InstalledRpmMissingField nat string
  | InstalledRpmUnusualArch nat json
  | TimestampNotString
  | TimestampNotIso string

record validator =
  errors :: "vmsg list"
  warnings :: "vmsg list"

definition add_error :: "vmsg \<Rightarrow> validator \<Rightarrow> validator" where
  "add_error e v = v\<lparr>errors := errors v @ [e]\<rparr>"

definition add_warning :: "vmsg \<Rightarrow> validator \<Rightarrow> validator" where
  "add_warning e v = v\<lparr>warnings := warnings v @ [e]\<rparr>"

definition REQUIRED_FIELDS :: "string list" where
  "REQUIRED_FIELDS =
     [''schema_version'', ''host_id'', ''os'', ''arch'', ''enabled_repos'', ''installed_rpms'',
      ''timestamp'']"

definition REQUIRED_OS_FIELDS :: "string list" where
  "REQUIRED_OS_FIELDS = [''major'', ''minor'', ''name'']"

definition REQUIRED_RPM_FIELDS :: "string list" where
  "REQUIRED_RPM_FIELDS = [''name'', ''epoch'', ''version'', ''release'', ''arch'']"

definition VALID_ARCHES :: "json list" where
  "VALID_ARCHES = [JStr ''x86_64'', JStr ''aarch64'', JStr ''noarch'', JStr ''i686'']"

definition VALID_OS_MAJORS :: "int list" where
  "VALID_OS_MAJORS = [8, 9]"

text \<open>The manifest handed to \<open>validate\<close> is a dict: \<open>k in d\<close> and \<open>d.get(k, default)\<close>.\<close>

definition dict_has :: "(string \<times> json) list \<Rightarrow> string \<Rightarrow> bool" where
  "dict_has d k = (map_of d k \<noteq> None)"

definition dict_get :: "(string \<times> json) list \<Rightarrow> string \<Rightarrow> json \<Rightarrow> json" where
  "dict_get d k dflt = (case map_of d k of Some v \<Rightarrow> v | None \<Rightarrow> dflt)"

text \<open>
  \<open>field in x\<close> for a string \<open>field\<close>: a key of a dict, a substring of a str, an
  element of a list; a TypeError on anything else.
\<close>

fun py_in :: "string \<Rightarrow> json \<Rightarrow> pyerror + bool" where
  "py_in field (JObj kvs) = Inr (map_of kvs field \<noteq> None)"
| "py_in field (JStr s) = Inr (contains s field)"
| "py_in field (JArr xs) = Inr (JStr field \<in> set xs)"
| "py_in field _ = Inl TypeError"

text \<open>\<open>isinstance(v, int)\<close>: a bool is an int in Python.\<close>

fun is_int :: "json \<Rightarrow> bool" where
  "is_int (JInt i) = True"
| "is_int (JBool b) = True"
| "is_int _ = False"

definition validate_required_fields :: "(string \<times> json) list \<Rightarrow> validator \<Rightarrow> validator" where
  "validate_required_fields manifest v =
     fold (\<lambda>field v. if \<not> dict_has manifest field then add_error (MissingRequiredField field) v else v)
       REQUIRED_FIELDS v"

definition validate_schema_version :: "(string \<times> json) list \<Rightarrow> validator \<Rightarrow> validator" where
  "validate_schema_version manifest v =
     (let version = dict_get manifest ''schema_version'' JNull in
      if truthy version \<and> version \<noteq> JStr ''1.0'' then add_warning (UnknownSchemaVersion version) v
      else v)"

fun validate_os_fields :: "json \<Rightarrow> string list \<Rightarrow> validator \<Rightarrow> pyerror + validator" where
  "validate_os_fields os_info [] v = Inr v"
| "validate_os_fields os_info (field # rest) v =
     bind_err (py_in field os_info) (\<lambda>present.
       validate_os_fields os_info rest
         (if \<not> present then add_error (MissingRequiredOsField field) v else v))"

definition validate_os :: "(string \<times> json) list \<Rightarrow> validator \<Rightarrow> pyerror + validator" where
  "validate_os manifest v =
     (let os_info = dict_get manifest ''os'' (JObj []) in
      bind_err (validate_os_fields os_info REQUIRED_OS_FIELDS v) (\<lambda>v1.
      bind_err (py_get os_info ''major'' JNull) (\<lambda>major.
      bind_err (py_get os_info ''minor'' JNull) (\<lambda>minor.
        let v2 = (if major \<noteq> JNull \<and> \<not> (\<exists>n \<in> set VALID_OS_MAJORS. py_eq_int major n)
                  then add_error (InvalidOsMajor major) v1 else v1)
        in Inr (if minor \<noteq> JNull \<and> \<not> is_int minor
                then add_error (OsMinorNotInteger minor) v2 else v2)))))"

definition validate_arch :: "(string \<times> json) list \<Rightarrow> validator \<Rightarrow> validator" where
  "validate_arch manifest v =
     (let arch = dict_get manifest ''arch'' JNull in
      if truthy arch \<and> arch \<notin> set [JStr ''x86_64'', JStr ''aarch64'']
      then add_error (InvalidSystemArch arch) v else v)"

definition validate_repo :: "json list \<Rightarrow> nat \<Rightarrow> validator \<Rightarrow> validator" where
  "validate_repo repos i v =
     (case repos ! i of
        JObj repo \<Rightarrow>
          (let v1 = (if \<not> dict_has repo ''id'' then add_error (EnabledRepoMissingId i) v else v)
           in if \<not> dict_has repo ''name'' then add_warning (EnabledRepoMissingName i) v1 else v1)
      | _ \<Rightarrow> add_error (EnabledRepoNotObject i) v)"

definition validate_repos :: "(string \<times> json) list \<Rightarrow> validator \<Rightarrow> validator" where
  "validate_repos manifest v =
     (case dict_get manifest ''enabled_repos'' (JArr []) of
        JArr repos \<Rightarrow> fold (validate_repo repos) [0..<length repos] v
      | _ \<Rightarrow> add_error EnabledReposNotList v)"

definition validate_rpm :: "json list \<Rightarrow> nat \<Rightarrow> validator \<Rightarrow> validator" where
  "validate_rpm rpms i v =
     (case rpms ! i of
        JObj rpm \<Rightarrow>
          (let v1 = fold (\<lambda>field v. if \<not> dict_has rpm field
                                      then add_error (InstalledRpmMissingField i field) v else v)
                      REQUIRED_RPM_FIELDS v;
               rpm_arch = dict_get rpm ''arch'' (JStr [])
           in if truthy rpm_arch \<and> rpm_arch \<notin> set VALID_ARCHES
              then add_warning (InstalledRpmUnusualArch i rpm_arch) v1 else v1)
      | _ \<Rightarrow> add_error (InstalledRpmNotObject i) v)"

definition validate_rpms :: "(string \<times> json) list \<Rightarrow> validator \<Rightarrow> validator" where
  "validate_rpms manifest v =
     (case dict_get manifest ''installed_rpms'' (JArr []) of
        JArr rpms \<Rightarrow>
          if length rpms = 0 then add_warning InstalledRpmsEmpty v
          else (let sample_size = min (length rpms) 100
                in fold (validate_rpm rpms) [0..<sample_size] v)
      | _ \<Rightarrow> add_error InstalledRpmsNotList v)"

definition validate_timestamp :: "(string \<times> json) list \<Rightarrow> validator \<Rightarrow> validator" where
  "validate_timestamp manifest v =
     (let timestamp = dict_get manifest ''timestamp'' JNull in
      if \<not> truthy timestamp then v
      else (case timestamp of
              JStr s \<Rightarrow> if \<not> contains s ''T'' then add_error (TimestampNotIso s) v else v
            | _ \<Rightarrow> add_error TimestampNotString v))"

text \<open>
  \<open>validate\<close> returns \<open>len(self.errors) == 0\<close>; the errors and the warnings it leaves
  on the validator are returned with it. An exception of \<open>_validate_os\<close> ends the call.
\<close>

definition validate :: "(string \<times> json) list \<Rightarrow> pyerror + (bool \<times> vmsg list \<times> vmsg list)" where
  "validate manifest =
     bind_err
       (validate_os manifest
          (validate_schema_version manifest
             (validate_required_fields manifest \<lparr>errors = [], warnings = []\<rparr>)))
       (\<lambda>v. let v' = validate_timestamp manifest
                        (validate_rpms manifest (validate_repos manifest (validate_arch manifest v)))
            in Inr (length (errors v') = 0, errors v', warnings v'))"

text \<open>An error that is about the OS major version.\<close>

fun about_os_major :: "vmsg \<Rightarrow> bool" where
  "about_os_major (MissingRequiredOsField field) = (field = ''major'')"
| "about_os_major (InvalidOsMajor v) = True"
| "about_os_major _ = False"

text \<open>The fixture with another OS major, and with an explicit \<open>null\<close> for it.\<close>

definition manifest_with_major :: "json \<Rightarrow> (string \<times> json) list" where
  "manifest_with_major v =
     map (\<lambda>(k, x). if k = ''os''
                    then (k, JObj [(''name'', JStr ''Red Hat Enterprise Linux''), (''major'', v),
                                   (''minor'', JInt 6), (''id'', JStr ''rhel'')])
                    else (k, x))
       sample_manifest_dict"

text \<open>
  A manifest with more than 100 installed RPMs: 100 copies of one entry, then \<open>tail\<close>.
\<close>

definition big_manifest :: "json list \<Rightarrow> (string \<times> json) list" where
  "big_manifest tail =
     (''installed_rpms'',
        JArr (replicate 100 (rpm_entry ''bash'' ''0'' ''5.1.8'' ''6.el9'' ''x86_64'' ''bash-5.1.8-6.el9.x86_64'')
              @ tail))
     # sample_manifest_dict"

section \<open>resolver.py: DependencyResolver\<close>

record ResolvedPackage =
  pkg_name :: string
  pkg_epoch :: string
  pkg_version :: string
  pkg_release :: string
  pkg_arch :: string
  pkg_nevra :: string
  repo_id :: string
  package_type :: string
  size_bytes :: nat
  advisory_id :: "string option"
  required_by :: "string list"

record resolver =
  installed_packages :: "string set"
  prefer_security :: bool
  resolved :: "ResolvedPackage list"
  resolver_errors :: "string list"

text \<open>
  What the three methods that drive \<open>dnf\<close> return in one run of \<open>resolve\<close>, each
  with the messages it appends to \<open>self.errors\<close>, or the exception that escapes it
  (\<open>subprocess.run\<close> raises when the tool is missing): \<open>_get_available_updates()\<close>,
  \<open>_get_security_updates()\<close>, and \<open>_resolve_dependencies(updates)\<close> for a set of
  update names.
\<close>

record dnf_answers =
  available_updates :: "pyerror + string set \<times> string list"
  security_updates :: "pyerror + string set \<times> string list"
  dependency_closure :: "string set \<Rightarrow> pyerror + ResolvedPackage list \<times> string list"

text \<open>Step 4 of \<open>resolve\<close>: the type given to one package of the closure.\<close>

definition classify :: "string set \<Rightarrow> string set \<Rightarrow> ResolvedPackage \<Rightarrow> ResolvedPackage" where
  "classify security updates pkg =
     (if pkg_name pkg \<in> security then pkg\<lparr>package_type := ''security''\<rparr>
      else if pkg_name pkg \<in> updates then pkg\<lparr>package_type := ''update''\<rparr>
      else pkg\<lparr>package_type := ''dependency''\<rparr>)"

definition resolve :: "dnf_answers \<Rightarrow> resolver \<Rightarrow> resolver \<times> (pyerror + ResolvedPackage list)" where
  "resolve a r =
     (let r0 = r\<lparr>resolved := [], resolver_errors := []\<rparr> in
      case available_updates a of
        Inl e \<Rightarrow> (r0, Inl e)
      | Inr (updates, errs1) \<Rightarrow>
          let r1 = r0\<lparr>resolver_errors := resolver_errors r0 @ errs1\<rparr> in
          if updates = {} then (r1, Inr [])
          else
            (case (if prefer_security r then security_updates a else Inr ({}, [])) of
               Inl e \<Rightarrow> (r1, Inl e)
             | Inr (security, errs2) \<Rightarrow>
                 let r2 = r1\<lparr>resolver_errors := resolver_errors r1 @ errs2\<rparr> in
                 (case dependency_closure a updates of
                    Inl e \<Rightarrow> (r2, Inl e)
                  | Inr (all_packages, errs3) \<Rightarrow>
                      let r3 = r2\<lparr>resolver_errors := resolver_errors r2 @ errs3,
                                   resolved := map (classify security updates) all_packages\<rparr>
                      in (r3, Inr (resolved r3)))))"

text \<open>The two sets the classification of a run consults.\<close>

definition update_set :: "dnf_answers \<Rightarrow> string set" where
  "update_set a = (case available_updates a of Inr (updates, errs) \<Rightarrow> updates | Inl e \<Rightarrow> {})"

definition security_set :: "dnf_answers \<Rightarrow> resolver \<Rightarrow> string set" where
  "security_set a r =
     (if prefer_security r
      then (case security_updates a of Inr (security, errs) \<Rightarrow> security | Inl e \<Rightarrow> {})
      else {})"

subsection \<open>The breadth-first fallback \<open>_resolve_via_repoquery\<close>\<close>

text \<open>
  Python's \<open>str.strip()\<close>, \<open>str.split(sep)\<close>, \<open>str.isdigit()\<close> and \<open>int(s)\<close> on
  text whose characters are code points below 256. The characters \<open>str.isspace\<close> holds
  of there are the space, 0x09 to 0x0D, 0x1C to 0x1F, 0x85 and 0xA0.
\<close>

definition is_space :: "char \<Rightarrow> bool" where
  "is_space c =
     (c \<in> set [CHR '' '', CHR 0x09, CHR 0x0A, CHR 0x0B, CHR 0x0C, CHR 0x0D,
                CHR 0x1C, CHR 0x1D, CHR 0x1E, CHR 0x1F, CHR 0x85, CHR 0xA0])"

definition strip :: "string \<Rightarrow> string" where
  "strip s = rev (dropWhile is_space (rev (dropWhile is_space s)))"

fun split_on :: "char \<Rightarrow> string \<Rightarrow> string list" where
  "split_on sep [] = [[]]"
| "split_on sep (c # cs) =
     (if c = sep then [] # split_on sep cs
      else (case split_on sep cs of
              [] \<Rightarrow> [[c]]
            | p # ps \<Rightarrow> (c # p) # ps))"

text \<open>
  \<open>str.isdigit\<close> also holds of the superscript digits 0xB2, 0xB3 and 0xB9, which
  \<open>int\<close> does not take; and \<open>int\<close> raises as well for more than 4300 digits.
  \<open>int_of_digits s\<close> is \<open>int(s)\<close> for a string that passed \<open>isdigit\<close>.
\<close>

definition is_decimal :: "char \<Rightarrow> bool" where
  "is_decimal c = (CHR ''0'' \<le> c \<and> c \<le> CHR ''9'')"

definition is_digit :: "char \<Rightarrow> bool" where
  "is_digit c = (is_decimal c \<or> c \<in> set [CHR 0xB2, CHR 0xB3, CHR 0xB9])"

definition isdigit :: "string \<Rightarrow> bool" where
  "isdigit s = (s \<noteq> [] \<and> list_all is_digit s)"

definition int_of_digits :: "string \<Rightarrow> pyerror + nat" where
  "int_of_digits s =
     (if \<not> list_all is_decimal s \<or> 4300 < length s then Inl ValueError
      else Inr (foldl (\<lambda>n c. 10 * n + (of_char c - of_char CHR ''0'')) 0 s))"

text \<open>
  The two \<open>dnf repoquery\<close> calls made for a name. Their answers may depend on the names
  processed before (the list given first): the lines of standard output, or the
  exception \<open>subprocess.run\<close> raises (\<open>CalledProcessError\<close> on a non-zero exit of the
  first call, which has \<open>check=True\<close>).
\<close>

record repoquery =
  query_latest :: "string list \<Rightarrow> string \<Rightarrow> pyerror + string list"
  query_requires :: "string list \<Rightarrow> string \<Rightarrow> pyerror + string list"

record bfs_state =
  bfs_resolved :: "ResolvedPackage list"
  processed :: "string list"
  to_process :: "string list"

text \<open>
  \<open>processed\<close> is a set in the source; the list keeps the order in which the names
  were added, and the source only tests membership.
\<close>

text \<open>
  One line of the first call's output, appended to \<open>resolved\<close> unless skipped; the
  \<open>ValueError\<close> of \<open>int(size)\<close> is not caught by the loop.
\<close>

definition add_info_line ::
    "string set \<Rightarrow> ResolvedPackage list \<Rightarrow> string \<Rightarrow> pyerror + ResolvedPackage list" where
  "add_info_line packages res line =
     (if strip line = [] then Inr res
      else
        (let parts = split_on CHR ''|'' line in
         if length parts < 7 then Inr res
         else
           (let n = parts ! 0; epoch = parts ! 1; version = parts ! 2; release = parts ! 3;
                arch = parts ! 4; repo = parts ! 5; size = parts ! 6;
                nevra = n @ ''-'' @ epoch @ '':'' @ version @ ''-'' @ release @ ''.'' @ arch
            in if \<exists>p \<in> set res. pkg_nevra p = nevra then Inr res
               else
                 bind_err (if isdigit size then int_of_digits size else Inr 0) (\<lambda>size_int.
                   Inr (res @
                     [\<lparr>pkg_name = n,
                       pkg_epoch = (if epoch \<noteq> ''(none)'' then epoch else ''0''),
                       pkg_version = version,
                       pkg_release = release,
                       pkg_arch = arch,
                       pkg_nevra = nevra,
                       repo_id = repo,
                       package_type = (if n \<in> packages then ''update'' else ''dependency''),
                       size_bytes = size_int,
                       advisory_id = None,
                       required_by = []\<rparr>])))))"

fun add_info_lines ::
    "string set \<Rightarrow> ResolvedPackage list \<Rightarrow> string list \<Rightarrow> pyerror + ResolvedPackage list" where
  "add_info_lines packages res [] = Inr res"
| "add_info_lines packages res (line # lines) =
     bind_err (add_info_line packages res line) (\<lambda>res'. add_info_lines packages res' lines)"

text \<open>The names the second call's output adds to the queue.\<close>

definition new_names :: "string list \<Rightarrow> string list \<Rightarrow> string list" where
  "new_names seen dep_lines = filter (\<lambda>dep_name. dep_name \<noteq> [] \<and> dep_name \<notin> set seen) (map strip dep_lines)"

text \<open>
  One iteration of the \<open>while to_process\<close> loop, for the name \<open>n\<close> popped off the
  queue: the state it leaves, or the exception that escapes it (any but the
  \<open>CalledProcessError\<close> the \<open>try\<close> catches).
\<close>

definition bfs_body :: "repoquery \<Rightarrow> string set \<Rightarrow> string \<Rightarrow> bfs_state \<Rightarrow> pyerror + bfs_state" where
  "bfs_body q packages n st =
     (if n \<in> set (processed st) then Inr st
      else
        (let st1 = st\<lparr>processed := processed st @ [n]\<rparr> in
         case query_latest q (processed st) n of
           Inl e \<Rightarrow> if e = CalledProcessError then Inr st1 else Inl e
         | Inr lines \<Rightarrow>
             (case add_info_lines packages (bfs_resolved st1) lines of
                Inl e \<Rightarrow> Inl e
              | Inr res \<Rightarrow>
                  (let st2 = st1\<lparr>bfs_resolved := res\<rparr> in
                   case query_requires q (processed st) n of
                     Inl e \<Rightarrow> if e = CalledProcessError then Inr st2 else Inl e
                   | Inr dep_lines \<Rightarrow>
                       Inr (st2\<lparr>to_process := to_process st2 @ new_names (processed st2) dep_lines\<rparr>)))))"

text \<open>
  The loop. It may run forever, so it is a partial function: \<open>None\<close> stands for a
  loop that does not end, \<open>Some (Inl e)\<close> for an exception escaping it,
  \<open>Some (Inr st)\<close> for its normal end.
\<close>

partial_function (option) bfs_loop :: "repoquery \<Rightarrow> string set \<Rightarrow> bfs_state \<Rightarrow> (pyerror + bfs_state) option" where
  "bfs_loop q packages st =
     (case to_process st of
        [] \<Rightarrow> Some (Inr st)
      | n # rest \<Rightarrow>
          (case bfs_body q packages n (st\<lparr>to_process := rest\<rparr>) of
             Inl e \<Rightarrow> Some (Inl e)
           | Inr st' \<Rightarrow> bfs_loop q packages st'))"

text \<open>The state after \<open>k\<close> iterations of the loop (fewer when the queue empties before).\<close>

fun bfs_iter :: "repoquery \<Rightarrow> string set \<Rightarrow> nat \<Rightarrow> bfs_state \<Rightarrow> pyerror + bfs_state" where
  "bfs_iter q packages 0 st = Inr st"
| "bfs_iter q packages (Suc k) st =
     (case to_process st of
        [] \<Rightarrow> Inr st
      | n # rest \<Rightarrow>
          bind_err (bfs_body q packages n (st\<lparr>to_process := rest\<rparr>)) (bfs_iter q packages k))"







declare bfs_loop.simps [code]

subsection \<open>Sample answers of the package tool\<close>

definition mk_pkg :: "string \<Rightarrow> string \<Rightarrow> ResolvedPackage" where
  "mk_pkg n nevra =
     \<lparr>pkg_name = n, pkg_epoch = ''0'', pkg_version = ''1.0'', pkg_release = ''1.el9'',
      pkg_arch = ''x86_64'', pkg_nevra = nevra, repo_id = ''rhel-9-baseos'',
      package_type = ''update'', size_bytes = 0, advisory_id = None, required_by = []\<rparr>"

definition sample_answers :: dnf_answers where
  "sample_answers =
     \<lparr>available_updates = Inr ({''bash'', ''openssl''}, []),
      security_updates = Inr ({''openssl''}, []),
      dependency_closure = (\<lambda>updates.
        Inr ([mk_pkg ''bash'' ''bash-1.0-1.el9.x86_64'',
              mk_pkg ''openssl'' ''openssl-1.0-1.el9.x86_64'',
              mk_pkg ''readline'' ''readline-1.0-1.el9.x86_64''], []))\<rparr>"

definition sample_resolver :: resolver where
  "sample_resolver =
     \<lparr>installed_packages = {''bash'', ''kernel'', ''openssl''}, prefer_security = True,
      resolved = [], resolver_errors = []\<rparr>"



section \<open>downloader.py: RPMDownloader\<close>

text \<open>How a run of an external tool ends: a zero exit, no such program, a non-zero exit.\<close>

datatype tool_outcome = ToolOk | ToolMissing | ToolFailed

record DownloadResult =
  package :: ResolvedPackage
  success :: bool
  local_path :: "path option"
  sha256 :: "string option"
  error_text :: "string option"

text \<open>
  The surroundings of \<open>download_packages\<close>: how the \<open>dnf download\<close> call ends
  (\<open>subprocess.run\<close> raises when the tool is missing; a non-zero exit only prints a
  warning), the entries of the download directory after it, in the order \<open>glob\<close> yields
  them, their bytes, and the hex digest \<open>_compute_sha256\<close> computes for a path.
\<close>

record download_world =
  dw_dnf_download :: tool_outcome
  dw_dir_entries :: "string list"
  dw_bytes :: "string \<Rightarrow> string"
  dw_sha256 :: "path \<Rightarrow> string"

text \<open>
  \<open>basename.rsplit("-", 2)\<close> has three parts when the name has two dashes; the package
  name is the first part, the text before the last but one dash.
\<close>

definition before_last_dash :: "string \<Rightarrow> string option" where
  "before_last_dash s =
     (if CHR ''-'' \<in> set s then Some (rev (tl (dropWhile (\<lambda>c. c \<noteq> CHR ''-'') (rev s))))
      else None)"

definition rsplit2_name :: "string \<Rightarrow> string option" where
  "rsplit2_name basename =
     (case before_last_dash basename of
        None \<Rightarrow> None
      | Some rest \<Rightarrow> before_last_dash rest)"

text \<open>
  \<open>_verify_downloads\<close>. \<open>rpm_by_name\<close> maps a package name to the last file that
  parses to it; a package with no entry there takes the first file whose name starts with
  \<open>name-\<close>; otherwise it is recorded as failed. A file just listed by \<open>glob\<close> exists.
\<close>

definition rpm_by_name :: "string list \<Rightarrow> (string \<times> string) list" where
  "rpm_by_name downloaded_rpms =
     rev (concat (map (\<lambda>f. case rsplit2_name (path_stem [f]) of
                               None \<Rightarrow> [] | Some n \<Rightarrow> [(n, f)]) downloaded_rpms))"

definition found_result :: "download_world \<Rightarrow> path \<Rightarrow> ResolvedPackage \<Rightarrow> string \<Rightarrow> DownloadResult" where
  "found_result dw download_dir pkg f =
     \<lparr>package = pkg, success = True, local_path = Some (download_dir @ [f]),
      sha256 = Some (dw_sha256 dw (download_dir @ [f])), error_text = None\<rparr>"

definition verify_download :: "download_world \<Rightarrow> path \<Rightarrow> string list \<Rightarrow> ResolvedPackage \<Rightarrow> DownloadResult" where
  "verify_download dw download_dir downloaded_rpms pkg =
     (case map_of (rpm_by_name downloaded_rpms) (pkg_name pkg) of
        Some f \<Rightarrow> found_result dw download_dir pkg f
      | None \<Rightarrow>
          (case find (\<lambda>f. starts_with f (pkg_name pkg @ ''-'')) downloaded_rpms of
             Some f \<Rightarrow> found_result dw download_dir pkg f
           | None \<Rightarrow>
               \<lparr>package = pkg, success = False, local_path = None, sha256 = None,
                error_text = Some ''Package not found in downloads''\<rparr>))"

definition verify_downloads :: "download_world \<Rightarrow> path \<Rightarrow> ResolvedPackage list \<Rightarrow> DownloadResult list" where
  "verify_downloads dw download_dir packages =
     map (verify_download dw download_dir
            (filter (\<lambda>f. ends_with f ''.rpm'') (dw_dir_entries dw)))
       packages"

definition download_packages :: "download_world \<Rightarrow> path \<Rightarrow> ResolvedPackage list \<Rightarrow> pyerror + DownloadResult list" where
  "download_packages dw download_dir packages =
     (if packages = [] then Inr []
      else (case dw_dnf_download dw of
              ToolMissing \<Rightarrow> Inl OSError
            | _ \<Rightarrow> Inr (verify_downloads dw download_dir packages)))"

text \<open>
  \<open>generate_checksums_file\<close>: the text written to the output file. The results are
  sorted by package name (Python's \<open>sorted\<close> is stable, as \<open>sort_key\<close> is); a result
  gives a line when \<open>result.success and result.sha256 and result.local_path\<close> holds (a
  \<open>Path\<close> is always true, \<open>None\<close> and the empty string are false).
\<close>

definition has_checksum :: "DownloadResult \<Rightarrow> bool" where
  "has_checksum result =
     (success result \<and>
      (case sha256 result of None \<Rightarrow> False | Some s \<Rightarrow> s \<noteq> []) \<and>
      local_path result \<noteq> None)"

definition checksum_line :: "DownloadResult \<Rightarrow> string" where
  "checksum_line result =
     (case sha256 result of None \<Rightarrow> [] | Some s \<Rightarrow> s) @ ''  '' @
     (case local_path result of None \<Rightarrow> [] | Some p \<Rightarrow> path_name p)"

definition checksum_lines :: "DownloadResult list \<Rightarrow> string list" where
  "checksum_lines results =
     map checksum_line
       (filter has_checksum (sort_key (\<lambda>r. pkg_name (package r)) results))"

text \<open>\<open>"\n".join(lines)\<close>.\<close>

fun join_lines :: "string list \<Rightarrow> string" where
  "join_lines [] = []"
| "join_lines [l] = l"
| "join_lines (l # ls) = l @ [CHR 0x0A] @ join_lines ls"

definition generate_checksums_file :: "DownloadResult list \<Rightarrow> string" where
  "generate_checksums_file results = join_lines (checksum_lines results) @ [CHR 0x0A]"

text \<open>
  A download result as \<open>_verify_downloads\<close> builds it: a successful one carries its
  digest (a non-empty hex string) and its local path.
\<close>

definition well_formed_result :: "DownloadResult \<Rightarrow> bool" where
  "well_formed_result result =
     (if success result
      then (case sha256 result of None \<Rightarrow> False | Some s \<Rightarrow> s \<noteq> []) \<and> local_path result \<noteq> None
      else True)"

definition sample_result :: "string \<Rightarrow> string \<Rightarrow> string \<Rightarrow> DownloadResult" where
  "sample_result n file digest =
     \<lparr>package = mk_pkg n (n @ ''-1.0-1.el9.x86_64''), success = True,
      local_path = Some [''rpms'', file], sha256 = Some digest, error_text = None\<rparr>"

definition failed_result :: "string \<Rightarrow> DownloadResult" where
  "failed_result n =
     \<lparr>package = mk_pkg n (n @ ''-1.0-1.el9.x86_64''), success = False,
      local_path = None, sha256 = None, error_text = Some ''Package not found in downloads''\<rparr>"

definition sample_results :: "DownloadResult list" where
  "sample_results =
     [sample_result ''openssl'' ''openssl-3.0.7-25.el9.x86_64.rpm'' ''ab12'',
      failed_result ''kernel'',
      sample_result ''bash'' ''bash-5.1.8-6.el9.x86_64.rpm'' ''cd34'']"

section \<open>builder.py: BundleBuilder\<close>

datatype codec = Zstd | Gzip

record package_entry =
  pe_nevra :: string
  pe_type :: string
  pe_sha256 :: "string option"
  pe_size_bytes :: nat
  pe_required_by :: "json list"
  pe_advisory_id :: "string option"

text \<open>
  The metadata dict of \<open>_build_metadata\<close>; \<open>md_total_count\<close> to \<open>md_size_bytes\<close> are
  its \<open>packages\<close> block, \<open>md_checksums_algorithm\<close> and \<open>md_bundle_hash\<close> its
  \<open>checksums\<close> block.
\<close>

record bundle_metadata =
  md_schema_version :: string
  md_bundle_id :: string
  md_os_major :: int
  md_created_at :: string
  md_builder_host :: string
  md_manifests_used :: "(json \<times> string \<times> json) list"
  md_total_count :: nat
  md_update_count :: nat
  md_security_count :: nat
  md_dependency_count :: nat
  md_size_bytes :: nat
  md_package_list :: "package_entry list"
  md_host_package_map :: "(json \<times> string list) list"
  md_checksums_algorithm :: string
  md_bundle_hash :: string
  md_build_log :: string

text \<open>
  What a file holds: text, a copy of another file, bytes this model does not look into,
  the serialized metadata, a tar archive of members, or a compressed file.
\<close>

datatype content =
    Text string
  | CopyOf path
  | Opaque string
  | MetadataDoc bundle_metadata
  | Tar "(path \<times> content) list"
  | Compressed codec content

record fsys =
  dirs :: "path set"
  files :: "path \<Rightarrow> content option"

record builder =
  b_os_major :: int
  manifest_dir :: path
  output_dir :: path
  work_dir :: path
  bundle_id :: string
  build_log :: "string list"
  metadata :: "bundle_metadata option"

text \<open>
  The surroundings of one \<open>build\<close>: the manifest files, the package tool's answers,
  the surroundings of \<open>download_packages\<close>, file
  sizes, the build timestamp (as \<open>strftime\<close> and \<open>isoformat\<close> print it), the clock read
  by the k-th \<open>_log\<close> call, the host name, how the two index generators and \<open>zstd\<close>
  end, the files the index generator writes, the SHA-256 of a file, and \<open>str(e)\<close> for
  an exception raised outside \<open>build\<close>.
\<close>

record build_world =
  bw_world :: world
  bw_dnf :: dnf_answers
  bw_downloads :: download_world
  bw_file_size :: "path \<Rightarrow> nat"
  bw_stamp :: string
  bw_created_at :: string
  bw_clock :: "nat \<Rightarrow> string"
  bw_hostname :: string
  bw_createrepo_c :: tool_outcome
  bw_createrepo :: tool_outcome
  bw_repodata :: "(path \<times> content) list"
  bw_zstd :: tool_outcome
  bw_file_hash :: "content \<Rightarrow> string"
  bw_error_text :: "pyerror \<Rightarrow> string"

text \<open>
  \<open>str(n)\<close> for a number and \<open>str(p)\<close> for a path, which is kept as its
  \<open>Path.parts\<close> (the first is \<open>/\<close> for an absolute path).
\<close>

function str_nat :: "nat \<Rightarrow> string" where
  "str_nat n =
     (if n < 10 then [char_of (48 + n)]
      else str_nat (n div 10) @ [char_of (48 + n mod 10)])"
  by pat_completeness auto
termination
  by (relation "measure id") auto

definition str_int :: "int \<Rightarrow> string" where
  "str_int i = (if i < 0 then ''-'' @ str_nat (nat (- i)) else str_nat (nat i))"

fun path_str :: "path \<Rightarrow> string" where
  "path_str [] = ''.''"
| "path_str [c] = c"
| "path_str (c # cs) = (if c = ''/'' then c @ path_str cs else c @ ''/'' @ path_str cs)"

text \<open>
  \<open>Path.mkdir(parents=True, exist_ok=True)\<close>: the path and its parents become
  directories; it raises when one of them is an existing file. \<open>shutil.rmtree\<close> removes
  everything under a path.
\<close>

definition path_prefixes :: "path \<Rightarrow> path list" where
  "path_prefixes p = map (\<lambda>n. take n p) [1..<Suc (length p)]"

definition mkdir_p :: "fsys \<Rightarrow> path \<Rightarrow> pyerror + fsys" where
  "mkdir_p fs p =
     (if \<exists>q \<in> set (path_prefixes p). files fs q \<noteq> None then Inl OSError
      else Inr (fs\<lparr>dirs := dirs fs \<union> set (path_prefixes p)\<rparr>))"

definition rmtree :: "fsys \<Rightarrow> path \<Rightarrow> fsys" where
  "rmtree fs p =
     fs\<lparr>dirs := {d \<in> dirs fs. take (length p) d \<noteq> p},
        files := (\<lambda>q. if take (length p) q = p then None else files fs q)\<rparr>"

definition BundleBuilder_init ::
    "int \<Rightarrow> path \<Rightarrow> path \<Rightarrow> path option \<Rightarrow> fsys \<Rightarrow> fsys \<times> (pyerror + builder)" where
  "BundleBuilder_init n mdir odir wdir fs =
     (if n \<noteq> 8 \<and> n \<noteq> 9 then (fs, Inl ValueError)
      else
        (let b = \<lparr>b_os_major = n, manifest_dir = mdir, output_dir = odir,
                  work_dir = (case wdir of Some d \<Rightarrow> d | None \<Rightarrow> [''/'', ''tmp'', ''bundle-build'']),
                  bundle_id = [], build_log = [], metadata = None\<rparr>
         in case mkdir_p fs (output_dir b) of
              Inl e \<Rightarrow> (fs, Inl e)
            | Inr fs1 \<Rightarrow>
                (case mkdir_p fs1 (work_dir b) of
                   Inl e \<Rightarrow> (fs1, Inl e)
                 | Inr fs2 \<Rightarrow> (fs2, Inr b))))"

text \<open>\<open>_log\<close>: the entry is the clock's reading in brackets and the message.\<close>

definition log_entry :: "build_world \<Rightarrow> nat \<Rightarrow> string \<Rightarrow> string" where
  "log_entry w k message = ''['' @ bw_clock w k @ ''] '' @ message"

definition log_msg :: "build_world \<Rightarrow> string \<Rightarrow> builder \<Rightarrow> builder" where
  "log_msg w message b = b\<lparr>build_log := build_log b @ [log_entry w (length (build_log b)) message]\<rparr>"

definition log_all :: "build_world \<Rightarrow> string list \<Rightarrow> builder \<Rightarrow> builder" where
  "log_all w messages b = fold (log_msg w) messages b"

text \<open>
  The text of an exception, as \<open>f"ERROR: {e}"\<close> prints it: the message \<open>build\<close>
  gives its own \<open>RuntimeError\<close>, and for an exception raised elsewhere the text the
  surroundings give.
\<close>

definition error_message :: "build_world \<Rightarrow> builder \<Rightarrow> pyerror \<Rightarrow> string" where
  "error_message w b e =
     (if e = RuntimeError then ''No RHEL '' @ str_int (b_os_major b) @ '' manifests found''
      else bw_error_text w e)"

text \<open>
  The working tree \<open>work_dir / bundle_id\<close> is kept as the list of its files, by
  relative path; writing a file replaces an older one of the same path.
\<close>

definition tree_write :: "(path \<times> content) list \<Rightarrow> path \<Rightarrow> content \<Rightarrow> (path \<times> content) list" where
  "tree_write tree p c = filter (\<lambda>(q, x). q \<noteq> p) tree @ [(p, c)]"

text \<open>
  Step 1: load and merge the manifests, then copy every \<open>*.json\<close> file; \<open>shutil.copy2\<close>
  raises for a file that cannot be opened.
\<close>

fun copy_manifests :: "world \<Rightarrow> path \<Rightarrow> string list \<Rightarrow> (path \<times> content) list \<Rightarrow> pyerror + (path \<times> content) list" where
  "copy_manifests w d [] tree = Inr tree"
| "copy_manifests w d (n # ns) tree =
     (if read_json w (d @ [n]) = Raises OSError then Inl OSError
      else copy_manifests w d ns (tree_write tree [''manifests'', n] (CopyOf (d @ [n]))))"

definition load_manifests ::
    "build_world \<Rightarrow> builder \<Rightarrow> builder \<times> (pyerror + merger \<times> (path \<times> content) list)" where
  "load_manifests w b =
     (let b1 = log_msg w ''Step 1: Loading manifests'' b in
      case ManifestMerger_init (b_os_major b) of
        Inl e \<Rightarrow> (b1, Inl e)
      | Inr merger0 \<Rightarrow>
          (case add_manifests_from_directory (bw_world w) (manifest_dir b) merger0 of
             (merger, Inl e) \<Rightarrow> (b1, Inl e)
           | (merger, Inr manifest_count) \<Rightarrow>
               (let b2 = log_msg w (''  Loaded '' @ str_nat manifest_count @ '' manifests'') b1 in
                if manifest_count = 0 then (b2, Inl RuntimeError)
                else
                  (case copy_manifests (bw_world w) (manifest_dir b)
                          (filter (\<lambda>n. ends_with n ''.json'') (list_dir (bw_world w) (manifest_dir b))) [] of
                     Inl e \<Rightarrow> (b2, Inl e)
                   | Inr tree \<Rightarrow> (b2, Inr (merger, tree))))))"

text \<open>Steps 2 and 3: the merged package names go to the resolver.\<close>

fun str_keys :: "json list \<Rightarrow> string list" where
  "str_keys [] = []"
| "str_keys (JStr s # ks) = s # str_keys ks"
| "str_keys (k # ks) = str_keys ks"

definition resolve_updates ::
    "build_world \<Rightarrow> merger \<Rightarrow> builder \<Rightarrow> builder \<times> (pyerror + ResolvedPackage list)" where
  "resolve_updates w merger b =
     (let b1 = log_msg w ''Step 2: Merging installed packages'' b in
      case get_merged_installed_rpms merger of
        Inl e \<Rightarrow> (b1, Inl e)
      | Inr merged_rpms \<Rightarrow>
          (let package_names = map fst merged_rpms;
               b2 = log_msg w (''  Found '' @ str_nat (length package_names) @ '' unique packages'') b1;
               b3 = log_msg w ''Step 3: Resolving updates and dependencies'' b2;
               resolver0 = \<lparr>installed_packages = set (str_keys package_names), prefer_security = True,
                            resolved = [], resolver_errors = []\<rparr>
           in case resolve (bw_dnf w) resolver0 of
                (resolver1, Inl e) \<Rightarrow> (b3, Inl e)
              | (resolver1, Inr resolved_pkgs) \<Rightarrow>
                  (let b4 = log_msg w (''  Resolved '' @ str_nat (length resolved_pkgs) @ '' packages'') b3;
                       b5 = log_all w (map (\<lambda>error. ''  Warning: '' @ error) (resolver_errors resolver1)) b4;
                       b6 = (if resolved_pkgs = []
                             then log_msg w ''  No updates available - creating empty bundle'' b5 else b5)
                   in (b6, Inr resolved_pkgs))))"

text \<open>Step 4: download, when there is something to download.\<close>

definition str_opt :: "string option \<Rightarrow> string" where
  "str_opt x = (case x of None \<Rightarrow> ''None'' | Some s \<Rightarrow> s)"

definition download_rpms ::
    "build_world \<Rightarrow> ResolvedPackage list \<Rightarrow> (path \<times> content) list \<Rightarrow> builder \<Rightarrow>
       builder \<times> (pyerror + DownloadResult list \<times> (path \<times> content) list)" where
  "download_rpms w resolved_pkgs tree b =
     (let b1 = log_msg w ''Step 4: Downloading RPMs'' b;
          rpms_dir = work_dir b @ [bundle_id b, ''rpms'']
      in if resolved_pkgs = [] then (b1, Inr ([], tree))
         else
           (case download_packages (bw_downloads w) rpms_dir resolved_pkgs of
              Inl e \<Rightarrow> (b1, Inl e)
            | Inr results \<Rightarrow>
                (let b2 = log_msg w (''  Downloaded: '' @ str_nat (length (filter success results)) @
                                     '', Failed: '' @ str_nat (length (filter (\<lambda>r. \<not> success r) results))) b1;
                     b3 = log_all w
                            (map (\<lambda>failed. ''  Failed: '' @ pkg_name (package failed) @ '' - '' @
                                             str_opt (error_text failed))
                               (filter (\<lambda>r. \<not> success r) results)) b2
                 in (b3, Inr (results,
                       fold (\<lambda>f t. tree_write t [''rpms'', f] (Opaque (dw_bytes (bw_downloads w) f)))
                         (dw_dir_entries (bw_downloads w)) tree)))))"

text \<open>
  Step 5, \<open>_generate_repodata\<close>: \<open>createrepo_c\<close>, and \<open>createrepo\<close> when the first is
  not installed; a failing run raises.
\<close>

definition generate_repodata :: "build_world \<Rightarrow> pyerror + unit" where
  "generate_repodata w =
     (case bw_createrepo_c w of
        ToolOk \<Rightarrow> Inr ()
      | ToolFailed \<Rightarrow> Inl CalledProcessError
      | ToolMissing \<Rightarrow>
          (case bw_createrepo w of
             ToolOk \<Rightarrow> Inr ()
           | ToolFailed \<Rightarrow> Inl CalledProcessError
           | ToolMissing \<Rightarrow> Inl OSError))"

text \<open>Step 7, \<open>_build_metadata\<close>.\<close>

definition package_list_entry ::
    "build_world \<Rightarrow> (json \<times> json list) list \<Rightarrow> DownloadResult \<Rightarrow> package_entry" where
  "package_list_entry w package_hosts result =
     \<lparr>pe_nevra = pkg_nevra (package result),
      pe_type = package_type (package result),
      pe_sha256 = sha256 result,
      pe_size_bytes = (case local_path result of Some p \<Rightarrow> bw_file_size w p | None \<Rightarrow> 0),
      pe_required_by =
        (case dict_lookup package_hosts (JStr (pkg_name (package result))) of
           Some hosts \<Rightarrow> hosts | None \<Rightarrow> []),
      pe_advisory_id = advisory_id (package result)\<rparr>"

definition get_total_size :: "build_world \<Rightarrow> DownloadResult list \<Rightarrow> nat" where
  "get_total_size w results =
     sum_list (map (\<lambda>result. case local_path result of
                                 Some p \<Rightarrow> if success result then bw_file_size w p else 0
                               | None \<Rightarrow> 0) results)"

definition build_metadata ::
    "build_world \<Rightarrow> builder \<Rightarrow> merger \<Rightarrow> ResolvedPackage list \<Rightarrow> DownloadResult list \<Rightarrow>
       pyerror + bundle_metadata" where
  "build_metadata w b merger resolved_pkgs results =
     bind_err (get_host_summary merger) (\<lambda>host_summary.
     bind_err (get_package_to_hosts_map merger) (\<lambda>package_hosts.
       let package_list = map (package_list_entry w package_hosts) (filter success results);
           host_package_map =
             fold (\<lambda>host_info m.
                     dict_set m (hs_host_id host_info)
                       (map pe_nevra
                          (filter (\<lambda>pkg. \<exists>h \<in> set (pe_required_by pkg). key_eq h (hs_host_id host_info))
                             package_list)))
               host_summary []
       in Inr \<lparr>md_schema_version = ''1.0'',
                md_bundle_id = bundle_id b,
                md_os_major = b_os_major b,
                md_created_at = bw_created_at w,
                md_builder_host = bw_hostname w,
                md_manifests_used =
                  map (\<lambda>h. (hs_host_id h, hs_manifest_hash h, hs_os_minor h)) host_summary,
                md_total_count = length package_list,
                md_update_count = length (filter (\<lambda>p. package_type p = ''update'') resolved_pkgs),
                md_security_count = length (filter (\<lambda>p. package_type p = ''security'') resolved_pkgs),
                md_dependency_count = length (filter (\<lambda>p. package_type p = ''dependency'') resolved_pkgs),
                md_size_bytes = get_total_size w results,
                md_package_list = package_list,
                md_host_package_map = host_package_map,
                md_checksums_algorithm = ''sha256'',
                md_bundle_hash = [],
                md_build_log = ''build.log''\<rparr>))"

text \<open>
  Step 9, \<open>_create_archive\<close>: a tar of the working tree under the bundle id, compressed
  by \<open>zstd --rm\<close>; when \<open>zstd\<close> is missing or fails, the tar stays and a gzip-compressed
  tar is written instead. The archive's path and content are returned.
\<close>

definition create_archive ::
    "build_world \<Rightarrow> builder \<Rightarrow> (path \<times> content) list \<Rightarrow> fsys \<Rightarrow> fsys \<times> path \<times> content" where
  "create_archive w b tree fs =
     (let tar = Tar (map (\<lambda>(p, c). (bundle_id b # p, c)) tree);
          tar_path = output_dir b @ [bundle_id b @ ''.tar'']
      in case bw_zstd w of
           ToolOk \<Rightarrow>
             (fs\<lparr>files := (files fs)(output_dir b @ [bundle_id b @ ''.tar.zst''] \<mapsto> Compressed Zstd tar)\<rparr>,
              output_dir b @ [bundle_id b @ ''.tar.zst''], Compressed Zstd tar)
         | _ \<Rightarrow>
             (fs\<lparr>files := (files fs)(tar_path \<mapsto> tar,
                                      output_dir b @ [bundle_id b @ ''.tar.gz''] \<mapsto> Compressed Gzip tar)\<rparr>,
              output_dir b @ [bundle_id b @ ''.tar.gz''], Compressed Gzip tar))"

text \<open>Steps 7 to 9, once the metadata dict is built.\<close>

definition finalize ::
    "build_world \<Rightarrow> builder \<Rightarrow> fsys \<Rightarrow> (path \<times> content) list \<Rightarrow> bundle_metadata \<Rightarrow>
       (builder \<times> fsys) \<times> path" where
  "finalize w b fs tree md =
     (let b1 = b\<lparr>metadata := Some md\<rparr>;
          tree1 = tree_write tree [''metadata.json''] (MetadataDoc md);
          b2 = log_msg w ''  Metadata written'' b1;
          b3 = log_msg w ''Step 8: Finalizing'' b2;
          tree2 = tree_write tree1 [''build.log''] (Text (join_lines (build_log b3) @ [CHR 0x0A]));
          b4 = log_msg w ''Step 9: Creating archive'' b3
      in case create_archive w b4 tree2 fs of
           (fs', archive_path, archive) \<Rightarrow>
             (let b5 = log_msg w (''  Bundle created: '' @ path_str archive_path) b4;
                  bundle_hash = bw_file_hash w archive;
                  b6 = log_msg w (''  SHA256: '' @ bundle_hash) b5
              in ((b6, fs'), archive_path)))"

text \<open>The body of the \<open>try\<close> block of \<open>build\<close>.\<close>

definition build_try :: "build_world \<Rightarrow> builder \<Rightarrow> fsys \<Rightarrow> (builder \<times> fsys) \<times> (pyerror + path)" where
  "build_try w b fs =
     (case load_manifests w b of
        (b1, Inl e) \<Rightarrow> ((b1, fs), Inl e)
      | (b1, Inr (merger, tree1)) \<Rightarrow>
          (case resolve_updates w merger b1 of
             (b2, Inl e) \<Rightarrow> ((b2, fs), Inl e)
           | (b2, Inr resolved_pkgs) \<Rightarrow>
               (case download_rpms w resolved_pkgs tree1 b2 of
                  (b3, Inl e) \<Rightarrow> ((b3, fs), Inl e)
                | (b3, Inr (results, tree2)) \<Rightarrow>
                    (let b4 = log_msg w ''Step 5: Generating repodata'' b3 in
                     case generate_repodata w of
                       Inl e \<Rightarrow> ((b4, fs), Inl e)
                     | Inr u \<Rightarrow>
                         (let tree3 = fold (\<lambda>(p, c) t. tree_write t (''rpms'' # p) c) (bw_repodata w) tree2;
                              b5 = log_msg w ''  Repodata generated'' b4;
                              b6 = log_msg w ''Step 6: Generating checksums'' b5;
                              tree4 = tree_write tree3 [''SHA256SUMS''] (Text (generate_checksums_file results));
                              b7 = log_msg w ''Step 7: Building metadata'' b6
                          in case build_metadata w b7 merger resolved_pkgs results of
                               Inl e \<Rightarrow> ((b7, fs), Inl e)
                             | Inr md \<Rightarrow>
                                 (case finalize w b7 fs tree4 md of
                                    (bf, archive_path) \<Rightarrow> (bf, Inr archive_path)))))))"

text \<open>
  \<open>build\<close>: the bundle id, the working directories, the \<open>try\<close> block, the error
  logged by \<open>except\<close>, and the removal of the working tree by \<open>finally\<close>.
\<close>

definition build :: "build_world \<Rightarrow> builder \<Rightarrow> fsys \<Rightarrow> builder \<times> fsys \<times> (pyerror + path)" where
  "build w b fs =
     (let b1 = b\<lparr>bundle_id := ''bundle-rhel'' @ str_int (b_os_major b) @ ''-'' @ bw_stamp w\<rparr>;
          b2 = log_msg w (''Starting bundle build: '' @ bundle_id b1) b1;
          bundle_work_dir = work_dir b @ [bundle_id b1]
      in case mkdir_p fs (bundle_work_dir @ [''rpms'']) of
           Inl e \<Rightarrow> (b2, fs, Inl e)
         | Inr fs1 \<Rightarrow>
             (case mkdir_p fs1 (bundle_work_dir @ [''manifests'']) of
                Inl e \<Rightarrow> (b2, fs1, Inl e)
              | Inr fs2 \<Rightarrow>
                  (case build_try w b2 fs2 of
                     ((b3, fs3), Inl e) \<Rightarrow>
                       (log_msg w (''ERROR: '' @ error_message w b3 e) b3, rmtree fs3 bundle_work_dir, Inl e)
                   | ((b3, fs3), Inr archive_path) \<Rightarrow>
                       (b3, rmtree fs3 bundle_work_dir, Inr archive_path))))"

text \<open>
  The state of a successful build: the archive \<open>a\<close> at path \<open>p\<close> is a compressed tar
  holding the metadata document \<open>md\<close> and the log file as written at step 8, which
  ends with the entry of that step, and the builder's log goes on with three more
  entries, the last the SHA-256 of \<open>a\<close>. \<open>same_place\<close>: two builder states have the
  same bundle id and working directory.
\<close>

definition sealed :: "build_world \<Rightarrow> builder \<Rightarrow> bundle_metadata \<Rightarrow> path \<Rightarrow> content \<Rightarrow> bool" where
  "sealed w b' md p a \<longleftrightarrow>
     (\<exists>codec members logged. a = Compressed codec (Tar members) \<and>
        map_of members [bundle_id b', ''metadata.json''] = Some (MetadataDoc md) \<and>
        map_of members [bundle_id b', ''build.log''] =
          Some (Text (join_lines logged @ [CHR 0x0A])) \<and>
        logged \<noteq> [] \<and>
        last logged = log_entry w (length logged - 1) ''Step 8: Finalizing'' \<and>
        build_log b' = logged @
          [log_entry w (length logged) ''Step 9: Creating archive'',
           log_entry w (length logged + 1) (''  Bundle created: '' @ path_str p),
           log_entry w (length logged + 2) (''  SHA256: '' @ bw_file_hash w a)]) \<and>
     metadata b' = Some md"

definition same_place :: "builder \<Rightarrow> builder \<Rightarrow> bool" where
  "same_place b b' \<longleftrightarrow> bundle_id b' = bundle_id b \<and> work_dir b' = work_dir b"

text \<open>
  The text of the \<open>build.log\<close> member of the archive at path \<open>p\<close>, the one log file a
  build leaves.
\<close>

definition archived_log :: "builder \<Rightarrow> fsys \<Rightarrow> path \<Rightarrow> string option" where
  "archived_log b fs p =
     (case files fs p of
        Some (Compressed codec (Tar members)) \<Rightarrow>
          (case map_of members [bundle_id b, ''build.log''] of
             Some (Text t) \<Rightarrow> Some t
           | _ \<Rightarrow> None)
      | _ \<Rightarrow> None)"

subsection \<open>A sample build\<close>

definition sample_build_world :: build_world where
  "sample_build_world =
     \<lparr>bw_world = sample_world,
      bw_dnf = sample_answers,
      bw_downloads =
        \<lparr>dw_dnf_download = ToolOk,
         dw_dir_entries = [''bash-1.0-1.el9.x86_64.rpm'', ''openssl-1.0-1.el9.x86_64.rpm''],
         dw_bytes = (\<lambda>f. ''rpm''),
         dw_sha256 = (\<lambda>p. ''ab12'')\<rparr>,
      bw_file_size = (\<lambda>p. 1024),
      bw_stamp = ''20240115T120000Z'',
      bw_created_at = ''2024-01-15T12:00:00+00:00'',
      bw_clock = (\<lambda>k. ''2024-01-15T12:00:'' @ str_nat (10 + k)),
      bw_hostname = ''builder01'',
      bw_createrepo_c = ToolMissing,
      bw_createrepo = ToolOk,
      bw_repodata = [([''repodata'', ''repomd.xml''], Opaque ''index'')],
      bw_zstd = ToolOk,
      bw_file_hash = (\<lambda>c. ''f00d''),
      bw_error_text = (\<lambda>e. ''failed'')\<rparr>"

definition empty_fs :: fsys where
  "empty_fs = \<lparr>dirs = {}, files = (\<lambda>p. None)\<rparr>"

definition sample_builder :: builder where
  "sample_builder =
     \<lparr>b_os_major = 9, manifest_dir = [''manifests''], output_dir = [''out''],
      work_dir = [''/'', ''tmp'', ''bundle-build''], bundle_id = [], build_log = [],
      metadata = None\<rparr>"

section \<open>Properties\<close>

subsection \<open>Basic facts\<close>

lemma bind_err_simps [simp]:
  "bind_err (Inl e) f = Inl e"
  "bind_err (Inr v) f = f v"
  by (simp_all add: bind_err_def)

lemma add_manifest_os_major [simp]: "os_major (fst (add_manifest w p st)) = os_major st"
  by (simp add: add_manifest_def split: file_read.splits sum.splits)

lemma add_manifest_cases:
  "add_manifest w p st = (st', r) \<Longrightarrow>
     (r = Inr True \<and> (\<exists>m. read_json w p = Loaded m \<and> os_major_matches (os_major st) m
          \<and> manifests st' = manifests st @ [m] \<and> os_major st' = os_major st))
     \<or> (r \<noteq> Inr True \<and> st' = st)"
  by (auto simp: add_manifest_def os_major_matches_def split: file_read.splits sum.splits if_splits)

lemma py_get_error: "py_get m k dflt = Inl e \<Longrightarrow> e = AttributeError"
  by (cases m) simp_all

lemma manifest_os_major_error: "manifest_os_major m = Inl e \<Longrightarrow> e = AttributeError"
  unfolding manifest_os_major_def
  by (cases "py_get m ''os'' (JObj [])") (auto dest: py_get_error)

lemma add_manifest_accepted:
  assumes "accepted w (os_major st) p"
  shows "add_manifest w p st =
     (st\<lparr>manifest_hashes :=
            dict_set (manifest_hashes st)
              (case py_get (loaded w p) ''host_id'' (JStr (path_stem p)) of Inr h \<Rightarrow> h | Inl e \<Rightarrow> JNull)
              (''sha256:'' @ sha256_json w (loaded w p)),
          manifests := manifests st @ [loaded w p]\<rparr>, Inr True)"
proof -
  from assms obtain m where r: "read_json w p = Loaded m"
    and mm: "os_major_matches (os_major st) m" and hu: "host_id_usable m p"
    by (auto simp: accepted_def split: file_read.splits)
  from mm obtain v where v: "manifest_os_major m = Inr v" and e: "py_eq_int v (os_major st)"
    by (auto simp: os_major_matches_def split: sum.splits)
  from hu obtain h where h: "py_get m ''host_id'' (JStr (path_stem p)) = Inr h" and hh: "hashable h"
    by (auto simp: host_id_usable_def split: sum.splits)
  have l: "loaded w p = m" using r by (simp add: loaded_def)
  show ?thesis unfolding l using r v e h hh by (simp add: add_manifest_def)
qed

lemma add_manifest_true_iff:
  "snd (add_manifest w p st) = Inr True \<longleftrightarrow> accepted w (os_major st) p"
proof
  assume "accepted w (os_major st) p"
  then show "snd (add_manifest w p st) = Inr True" by (simp add: add_manifest_accepted)
next
  assume a: "snd (add_manifest w p st) = Inr True"
  show "accepted w (os_major st) p"
  proof (cases "read_json w p")
    case (Raises e)
    with a show ?thesis by (simp add: add_manifest_def)
  next
    case (Loaded m)
    show ?thesis
    proof (cases "manifest_os_major m")
      case (Inl e)
      with a Loaded show ?thesis by (simp add: add_manifest_def)
    next
      case (Inr v)
      with a Loaded show ?thesis
        by (cases "py_get m ''host_id'' (JStr (path_stem p))")
           (simp_all add: add_manifest_def accepted_def os_major_matches_def host_id_usable_def
              split: if_splits)
    qed
  qed
qed

lemma add_manifest_false_iff:
  "snd (add_manifest w p st) = Inr False \<longleftrightarrow> os_major_differs (os_major st) (read_json w p)"
proof (cases "read_json w p")
  case (Raises e)
  then show ?thesis by (simp add: add_manifest_def os_major_differs_def)
next
  case (Loaded m)
  show ?thesis
  proof (cases "manifest_os_major m")
    case (Inl e)
    with Loaded show ?thesis by (simp add: add_manifest_def os_major_differs_def)
  next
    case (Inr v)
    with Loaded show ?thesis
      by (cases "py_get m ''host_id'' (JStr (path_stem p))")
         (simp_all add: add_manifest_def os_major_differs_def)
  qed
qed

lemma add_manifest_not_accepted:
  assumes "\<not> accepted w (os_major st) p"
  shows "fst (add_manifest w p st) = st"
proof -
  obtain st' r where s: "add_manifest w p st = (st', r)" by fastforce
  with assms add_manifest_true_iff[of w p st] have "r \<noteq> Inr True" by auto
  with add_manifest_cases[OF s] s show ?thesis by simp
qed

lemma add_manifest_decided:
  assumes "decided w (os_major st) p"
  shows "snd (add_manifest w p st) = Inr (accepted w (os_major st) p)"
proof (cases "accepted w (os_major st) p")
  case True
  then show ?thesis by (simp add: add_manifest_true_iff)
next
  case False
  with assms have "os_major_differs (os_major st) (read_json w p)" by (simp add: decided_def)
  with False show ?thesis by (simp add: add_manifest_false_iff)
qed

lemma add_manifest_raises_iff:
  "(\<exists>e. snd (add_manifest w p st) = Inl e) \<longleftrightarrow> \<not> decided w (os_major st) p"
proof
  assume "\<exists>e. snd (add_manifest w p st) = Inl e"
  then show "\<not> decided w (os_major st) p"
    using add_manifest_decided[of w st p] by auto
next
  assume n: "\<not> decided w (os_major st) p"
  show "\<exists>e. snd (add_manifest w p st) = Inl e"
  proof (cases "snd (add_manifest w p st)")
    case (Inl e)
    then show ?thesis by simp
  next
    case (Inr b)
    with n add_manifest_true_iff[of w p st] add_manifest_false_iff[of w p st]
    show ?thesis by (cases b) (simp_all add: decided_def)
  qed
qed

lemma add_manifest_swallowed_iff:
  "snd (add_manifest w p st) = Inl JSONDecodeError \<or> snd (add_manifest w p st) = Inl KeyError
     \<longleftrightarrow> swallowed w p"
proof (cases "read_json w p")
  case (Raises e)
  then show ?thesis by (auto simp: add_manifest_def swallowed_def)
next
  case (Loaded m)
  have ns: "\<not> swallowed w p" using Loaded by (simp add: swallowed_def)
  show ?thesis
  proof (cases "manifest_os_major m")
    case (Inl e)
    then have "e = AttributeError" by (rule manifest_os_major_error)
    with Inl Loaded ns show ?thesis by (simp add: add_manifest_def)
  next
    case (Inr v)
    show ?thesis
    proof (cases "py_get m ''host_id'' (JStr (path_stem p))")
      case hl: (Inl e)
      then have "e = AttributeError" by (rule py_get_error)
      with hl Inr Loaded ns show ?thesis by (simp add: add_manifest_def)
    next
      case hr: (Inr h)
      with Inr Loaded ns show ?thesis by (simp add: add_manifest_def)
    qed
  qed
qed

lemma accepted_not_swallowed: "swallowed w p \<Longrightarrow> \<not> accepted w t p"
  by (auto simp: swallowed_def accepted_def)

lemma add_manifest_step:
  assumes "decided w (os_major st) p"
  obtains st' where "add_manifest w p st = (st', Inr (accepted w (os_major st) p))"
    and "manifests st' = manifests st @ (if accepted w (os_major st) p then [loaded w p] else [])"
    and "os_major st' = os_major st"
proof -
  obtain st' r where s: "add_manifest w p st = (st', r)" by fastforce
  have r: "r = Inr (accepted w (os_major st) p)"
    using add_manifest_decided[OF assms] s by simp
  have m: "manifests st' = manifests st @ (if accepted w (os_major st) p then [loaded w p] else [])"
  proof (cases "accepted w (os_major st) p")
    case True
    from add_manifest_accepted[OF True] s True show ?thesis by auto
  next
    case False
    from add_manifest_not_accepted[OF False] s False show ?thesis by simp
  qed
  have o: "os_major st' = os_major st"
    using add_manifest_os_major[of w p st] s by simp
  from s r m o that show ?thesis by simp
qed

lemma first_pass_decided:
  "list_all (\<lambda>n. decided w (os_major st) (d @ [n])) ns \<Longrightarrow>
     snd (first_pass w d ns st c) = Inr (c + length (accepted_from w (os_major st) d ns)) \<and>
     manifests (fst (first_pass w d ns st c)) = manifests st @ accepted_from w (os_major st) d ns \<and>
     os_major (fst (first_pass w d ns st c)) = os_major st"
proof (induction ns arbitrary: st c)
  case Nil
  then show ?case by (simp add: accepted_from_def)
next
  case (Cons n ns)
  from Cons.prems have dn: "decided w (os_major st) (d @ [n])"
    and dr: "list_all (\<lambda>n. decided w (os_major st) (d @ [n])) ns" by simp_all
  from dn obtain st' where st': "add_manifest w (d @ [n]) st = (st', Inr (accepted w (os_major st) (d @ [n])))"
    and m: "manifests st' = manifests st @ (if accepted w (os_major st) (d @ [n]) then [loaded w (d @ [n])] else [])"
    and o: "os_major st' = os_major st"
    by (rule add_manifest_step)
  from dr o have "list_all (\<lambda>n. decided w (os_major st') (d @ [n])) ns" by simp
  from Cons.IH[OF this] st' m o show ?case
    by (simp add: accepted_from_def)
qed

lemma first_pass_raises:
  "\<not> list_all (\<lambda>n. decided w (os_major st) (d @ [n])) ns \<Longrightarrow>
     \<exists>e. snd (first_pass w d ns st c) = Inl e"
proof (induction ns arbitrary: st c)
  case Nil
  then show ?case by simp
next
  case (Cons n ns)
  obtain st' r where s: "add_manifest w (d @ [n]) st = (st', r)" by fastforce
  have o: "os_major st' = os_major st"
    using add_manifest_os_major[of w "d @ [n]" st] s by simp
  show ?case
  proof (cases r)
    case (Inl e)
    with s show ?thesis by simp
  next
    case (Inr added)
    with s add_manifest_raises_iff[of w "d @ [n]" st]
    have "decided w (os_major st) (d @ [n])" by auto
    with Cons.prems o have "\<not> list_all (\<lambda>n. decided w (os_major st') (d @ [n])) ns" by simp
    from Cons.IH[OF this] s Inr show ?thesis by simp
  qed
qed

lemma second_pass_decided:
  "list_all (\<lambda>n. decided w (os_major st) (d @ [n]) \<or> swallowed w (d @ [n]))
       (filter (\<lambda>n. \<not> contains n ''-manifest'') ns) \<Longrightarrow>
     snd (second_pass w d ns st c) =
       Inr (c + length (accepted_from w (os_major st) d (filter (\<lambda>n. \<not> contains n ''-manifest'') ns))) \<and>
     manifests (fst (second_pass w d ns st c)) =
       manifests st @ accepted_from w (os_major st) d (filter (\<lambda>n. \<not> contains n ''-manifest'') ns) \<and>
     os_major (fst (second_pass w d ns st c)) = os_major st"
proof (induction ns arbitrary: st c)
  case Nil
  then show ?case by (simp add: accepted_from_def)
next
  case (Cons n ns)
  show ?case
  proof (cases "contains n ''-manifest''")
    case True
    with Cons show ?thesis by simp
  next
    case False
    from Cons.prems False have
      dr: "list_all (\<lambda>n. decided w (os_major st) (d @ [n]) \<or> swallowed w (d @ [n]))
             (filter (\<lambda>n. \<not> contains n ''-manifest'') ns)"
      and dn: "decided w (os_major st) (d @ [n]) \<or> swallowed w (d @ [n])"
      by simp_all
    show ?thesis
    proof (cases "decided w (os_major st) (d @ [n])")
      case True
      then obtain st' where st': "add_manifest w (d @ [n]) st = (st', Inr (accepted w (os_major st) (d @ [n])))"
        and m: "manifests st' = manifests st @ (if accepted w (os_major st) (d @ [n]) then [loaded w (d @ [n])] else [])"
        and o: "os_major st' = os_major st"
        by (rule add_manifest_step)
      from dr o have "list_all (\<lambda>n. decided w (os_major st') (d @ [n]) \<or> swallowed w (d @ [n]))
             (filter (\<lambda>n. \<not> contains n ''-manifest'') ns)" by simp
      from Cons.IH[OF this] st' m o False show ?thesis
        by (simp add: accepted_from_def)
    next
      case nd: False
      with dn have sw: "swallowed w (d @ [n])" by simp
      then have na: "\<not> accepted w (os_major st) (d @ [n])" by (rule accepted_not_swallowed)
      obtain st' r where s: "add_manifest w (d @ [n]) st = (st', r)" by fastforce
      have st': "st' = st" using add_manifest_not_accepted[OF na] s by simp
      from sw add_manifest_swallowed_iff[of w "d @ [n]" st] s
      have r: "r = Inl JSONDecodeError \<or> r = Inl KeyError" by simp
      from r show ?thesis
      proof
        assume "r = Inl JSONDecodeError"
        with Cons.IH[OF dr] s st' na False show ?thesis by (simp add: accepted_from_def)
      next
        assume "r = Inl KeyError"
        with Cons.IH[OF dr] s st' na False show ?thesis by (simp add: accepted_from_def)
      qed
    qed
  qed
qed

lemma second_pass_raises:
  "\<not> list_all (\<lambda>n. decided w (os_major st) (d @ [n]) \<or> swallowed w (d @ [n]))
       (filter (\<lambda>n. \<not> contains n ''-manifest'') ns) \<Longrightarrow>
     \<exists>e. snd (second_pass w d ns st c) = Inl e"
proof (induction ns arbitrary: st c)
  case Nil
  then show ?case by simp
next
  case (Cons n ns)
  show ?case
  proof (cases "contains n ''-manifest''")
    case True
    with Cons show ?thesis by simp
  next
    case False
    obtain st' r where s: "add_manifest w (d @ [n]) st = (st', r)" by fastforce
    have o: "os_major st' = os_major st"
      using add_manifest_os_major[of w "d @ [n]" st] s by simp
    show ?thesis
    proof (cases "decided w (os_major st) (d @ [n]) \<or> swallowed w (d @ [n])")
      case ok: True
      with Cons.prems False o
      have n': "\<not> list_all (\<lambda>n. decided w (os_major st') (d @ [n]) \<or> swallowed w (d @ [n]))
             (filter (\<lambda>n. \<not> contains n ''-manifest'') ns)" by simp
      show ?thesis
      proof (cases r)
        case (Inl e)
        with Cons.IH[OF n'] s False show ?thesis by simp
      next
        case (Inr added)
        with Cons.IH[OF n'] s False show ?thesis by simp
      qed
    next
      case bad: False
      then have nd: "\<not> decided w (os_major st) (d @ [n])" and ns: "\<not> swallowed w (d @ [n])"
        by simp_all
      from nd add_manifest_raises_iff[of w "d @ [n]" st] s obtain e where e: "r = Inl e" by auto
      from ns add_manifest_swallowed_iff[of w "d @ [n]" st] s e
      have "e \<noteq> JSONDecodeError" and "e \<noteq> KeyError" by auto
      with s e False show ?thesis by simp
    qed
  qed
qed

lemma ends_with_iff: "ends_with s suf \<longleftrightarrow> (\<exists>pre. s = pre @ suf)"
proof
  assume "ends_with s suf"
  then have "s = take (length s - length suf) s @ suf"
    by (metis append_take_drop_id ends_with_def)
  then show "\<exists>pre. s = pre @ suf" ..
next
  assume "\<exists>pre. s = pre @ suf"
  then show "ends_with s suf" by (auto simp: ends_with_def)
qed

lemma ends_with_manifest_json:
  assumes "ends_with n ''-manifest.json''"
  shows "ends_with n ''.json''"
proof -
  from assms obtain pre where "n = pre @ ''-manifest.json''"
    by (auto simp: ends_with_iff)
  then have "n = (pre @ ''-manifest'') @ ''.json''" by simp
  then show ?thesis unfolding ends_with_iff by blast
qed

lemma key_eq_refl [simp]: "key_eq a a"
  by (cases a) (simp_all add: key_eq_def)

lemma first_pass_os_major [simp]: "os_major (fst (first_pass w d ns st c)) = os_major st"
proof (induction ns arbitrary: st c)
  case Nil
  show ?case by simp
next
  case (Cons n ns)
  obtain st' r where a: "add_manifest w (d @ [n]) st = (st', r)" by fastforce
  then have "os_major st' = os_major st"
    using add_manifest_os_major[of w "d @ [n]" st] by simp
  with Cons a show ?case by (cases r) simp_all
qed

lemma second_pass_os_major [simp]: "os_major (fst (second_pass w d ns st c)) = os_major st"
proof (induction ns arbitrary: st c)
  case Nil
  show ?case by simp
next
  case (Cons n ns)
  obtain st' r where a: "add_manifest w (d @ [n]) st = (st', r)" by fastforce
  then have "os_major st' = os_major st"
    using add_manifest_os_major[of w "d @ [n]" st] by simp
  with Cons a show ?case by (cases r) simp_all
qed

lemma directory_os_major [simp]: "os_major (fst (add_manifests_from_directory w d st)) = os_major st"
proof -
  let ?l = "filter (\<lambda>n. ends_with n ''-manifest.json'') (list_dir w d)"
  obtain st' r where a: "first_pass w d ?l st 0 = (st', r)"
    by fastforce
  then have "os_major st' = os_major st"
    using first_pass_os_major[of w d ?l st 0] by simp
  with a show ?thesis
    by (cases r) (simp_all add: add_manifests_from_directory_def)
qed

lemma directory_ingestible:
  assumes "ingestible w (os_major st) d"
  shows "snd (add_manifests_from_directory w d st) =
           Inr (length (accepted_from w (os_major st) d (dir_files w d))) \<and>
         manifests (fst (add_manifests_from_directory w d st)) =
           manifests st @ accepted_from w (os_major st) d (dir_files w d)"
proof -
  let ?l1 = "filter (\<lambda>n. ends_with n ''-manifest.json'') (list_dir w d)"
  let ?l2 = "filter (\<lambda>n. ends_with n ''.json'') (list_dir w d)"
  from assms have p1: "list_all (\<lambda>n. decided w (os_major st) (d @ [n])) ?l1"
    and p2: "list_all (\<lambda>n. decided w (os_major st) (d @ [n]) \<or> swallowed w (d @ [n]))
               (filter (\<lambda>n. \<not> contains n ''-manifest'') ?l2)"
    by (simp_all add: ingestible_def manifest_files_def other_json_files_def)
  obtain st1 where s1: "first_pass w d ?l1 st 0 = (st1, Inr (length (accepted_from w (os_major st) d ?l1)))"
    using first_pass_decided[OF p1, of 0]
    by (cases "first_pass w d ?l1 st 0") auto
  have m1: "manifests st1 = manifests st @ accepted_from w (os_major st) d ?l1" and o1: "os_major st1 = os_major st"
    using first_pass_decided[OF p1, of 0] s1 by auto
  from p2 o1 have p2': "list_all (\<lambda>n. decided w (os_major st1) (d @ [n]) \<or> swallowed w (d @ [n]))
               (filter (\<lambda>n. \<not> contains n ''-manifest'') ?l2)" by simp
  show ?thesis
    using second_pass_decided[OF p2', of "length (accepted_from w (os_major st) d ?l1)"] s1 m1 o1
    by (simp add: add_manifests_from_directory_def dir_files_def accepted_from_def
          manifest_files_def other_json_files_def)
qed

lemma directory_raises:
  assumes "\<not> ingestible w (os_major st) d"
  shows "\<exists>e. snd (add_manifests_from_directory w d st) = Inl e"
proof -
  let ?l1 = "filter (\<lambda>n. ends_with n ''-manifest.json'') (list_dir w d)"
  let ?l2 = "filter (\<lambda>n. ends_with n ''.json'') (list_dir w d)"
  obtain st1 r1 where s1: "first_pass w d ?l1 st 0 = (st1, r1)" by fastforce
  have o1: "os_major st1 = os_major st"
    using first_pass_os_major[of w d ?l1 st 0] s1 by simp
  show ?thesis
  proof (cases r1)
    case (Inl e)
    with s1 show ?thesis by (simp add: add_manifests_from_directory_def)
  next
    case (Inr c)
    have "list_all (\<lambda>n. decided w (os_major st) (d @ [n])) ?l1"
    proof (rule ccontr)
      assume "\<not> list_all (\<lambda>n. decided w (os_major st) (d @ [n])) ?l1"
      from first_pass_raises[OF this, of 0] s1 Inr show False by simp
    qed
    with assms o1 have "\<not> list_all (\<lambda>n. decided w (os_major st1) (d @ [n]) \<or> swallowed w (d @ [n]))
               (filter (\<lambda>n. \<not> contains n ''-manifest'') ?l2)"
      by (simp add: ingestible_def manifest_files_def other_json_files_def)
    from second_pass_raises[OF this, of c] s1 Inr show ?thesis
      by (simp add: add_manifests_from_directory_def)
  qed
qed

lemma run_call_os_major [simp]: "os_major (run_call w c st) = os_major st"
  by (cases c) simp_all

lemma add_manifest_all_match: "all_match st \<Longrightarrow> all_match (fst (add_manifest w p st))"
proof -
  assume a: "all_match st"
  obtain st' r where s: "add_manifest w p st = (st', r)" by fastforce
  from add_manifest_cases[OF s] a s show ?thesis
    by (auto simp: all_match_def)
qed

lemma first_pass_all_match: "all_match st \<Longrightarrow> all_match (fst (first_pass w d ns st c))"
proof (induction ns arbitrary: st c)
  case Nil
  then show ?case by simp
next
  case (Cons n ns)
  obtain st' r where a: "add_manifest w (d @ [n]) st = (st', r)" by fastforce
  then have "all_match st'"
    using add_manifest_all_match[OF Cons.prems, of w "d @ [n]"] by simp
  with Cons.IH a show ?case by (cases r) simp_all
qed

lemma second_pass_all_match: "all_match st \<Longrightarrow> all_match (fst (second_pass w d ns st c))"
proof (induction ns arbitrary: st c)
  case Nil
  then show ?case by simp
next
  case (Cons n ns)
  obtain st' r where a: "add_manifest w (d @ [n]) st = (st', r)" by fastforce
  then have "all_match st'"
    using add_manifest_all_match[OF Cons.prems, of w "d @ [n]"] by simp
  with Cons a show ?case by (cases r) simp_all
qed

lemma directory_all_match: "all_match st \<Longrightarrow> all_match (fst (add_manifests_from_directory w d st))"
proof -
  assume m: "all_match st"
  let ?l = "filter (\<lambda>n. ends_with n ''-manifest.json'') (list_dir w d)"
  obtain st' r where a: "first_pass w d ?l st 0 = (st', r)"
    by fastforce
  then have "all_match st'"
    using first_pass_all_match[OF m, of w d ?l 0] by simp
  with a show ?thesis
    by (cases r) (simp_all add: add_manifests_from_directory_def second_pass_all_match)
qed

lemma run_calls_all_match: "all_match st \<Longrightarrow> all_match (run_calls w cs st)"
proof (induction cs arbitrary: st)
  case Nil
  then show ?case by simp
next
  case (Cons c cs)
  have "all_match (run_call w c st)"
    using Cons.prems by (cases c) (simp_all add: add_manifest_all_match directory_all_match)
  then have "all_match (run_calls w cs (run_call w c st))" by (rule Cons.IH)
  then show ?case by simp
qed

lemma run_calls_os_major [simp]: "os_major (run_calls w cs st) = os_major st"
  by (induction cs arbitrary: st) simp_all

lemma add_manifest_wrong_os:
  "os_major_differs (os_major st) (read_json w p) \<Longrightarrow> add_manifest w p st = (st, Inr False)"
  by (auto simp: os_major_differs_def add_manifest_def split: file_read.splits sum.splits)

lemma add_manifest_agree:
  assumes "agree (os_major st) w w'"
  shows "add_manifest w' p st = add_manifest w p st"
proof (cases "read_json w' p = read_json w p")
  case True
  from assms have "sha256_json w' = sha256_json w" by (simp add: agree_def)
  with True show ?thesis
    by (simp add: add_manifest_def split: file_read.splits sum.splits)
next
  case False
  with assms have "os_major_differs (os_major st) (read_json w p)"
    and "os_major_differs (os_major st) (read_json w' p)"
    by (auto simp: agree_def)
  then show ?thesis by (simp add: add_manifest_wrong_os)
qed

lemma first_pass_agree:
  "agree (os_major st) w w' \<Longrightarrow> first_pass w' d ns st c = first_pass w d ns st c"
proof (induction ns arbitrary: st c)
  case Nil
  show ?case by simp
next
  case (Cons n ns)
  obtain st' r where a: "add_manifest w (d @ [n]) st = (st', r)" by fastforce
  then have "os_major st' = os_major st"
    using add_manifest_os_major[of w "d @ [n]" st] by simp
  with Cons.prems have "agree (os_major st') w w'" by simp
  with Cons.IH a add_manifest_agree[OF Cons.prems, of "d @ [n]"] show ?case
    by (cases r) simp_all
qed

lemma second_pass_agree:
  "agree (os_major st) w w' \<Longrightarrow> second_pass w' d ns st c = second_pass w d ns st c"
proof (induction ns arbitrary: st c)
  case Nil
  show ?case by simp
next
  case (Cons n ns)
  obtain st' r where a: "add_manifest w (d @ [n]) st = (st', r)" by fastforce
  then have "os_major st' = os_major st"
    using add_manifest_os_major[of w "d @ [n]" st] by simp
  with Cons.prems have "agree (os_major st') w w'" by simp
  with Cons a add_manifest_agree[OF Cons.prems(1), of "d @ [n]"] show ?case
    by (cases r) simp_all
qed

lemma directory_agree:
  assumes "agree (os_major st) w w'"
  shows "add_manifests_from_directory w' d st = add_manifests_from_directory w d st"
proof -
  have l: "list_dir w' = list_dir w" using assms by (simp add: agree_def)
  let ?l = "filter (\<lambda>n. ends_with n ''-manifest.json'') (list_dir w d)"
  obtain st' r where a: "first_pass w d ?l st 0 = (st', r)"
    by fastforce
  then have "os_major st' = os_major st"
    using first_pass_os_major[of w d ?l st 0] by simp
  with assms have "agree (os_major st') w w'" by simp
  with a l first_pass_agree[OF assms] show ?thesis
    by (cases r) (simp_all add: add_manifests_from_directory_def second_pass_agree)
qed

lemma run_calls_agree:
  "agree (os_major st) w w' \<Longrightarrow> run_calls w' cs st = run_calls w cs st"
proof (induction cs arbitrary: st)
  case Nil
  show ?case by simp
next
  case (Cons c cs)
  have e: "run_call w' c st = run_call w c st"
    using Cons.prems by (cases c) (simp_all add: add_manifest_agree directory_agree)
  have "agree (os_major (run_call w c st)) w w'" using Cons.prems by simp
  from Cons.IH[OF this] e show ?case by simp
qed

lemma set_add_absorb: "\<exists>u \<in> set vs. key_eq u v \<Longrightarrow> set_add vs v = vs"
  by (simp add: set_add_def)






















subsection \<open>The merger\<close>

text \<open>
  Claim C3. A manifest whose \<open>os.major\<close> differs from the merger's target leaves no
  trace: after any sequence of \<open>add_manifest\<close> and \<open>add_manifests_from_directory\<close>
  calls on a fresh merger, every manifest the merger holds has the target's OS major, and
  \<open>get_host_summary\<close> and \<open>get_merged_installed_rpms\<close> are the same whatever the files
  with another OS major contain (two worlds that differ only in such files give the same
  results).
\<close>

theorem rejected_manifests_leave_no_trace:
  assumes "ManifestMerger_init t = Inr st0"
    and "list_dir w' = list_dir w" and "sha256_json w' = sha256_json w"
    and "\<forall>p. read_json w' p = read_json w p \<or>
          (os_major_differs t (read_json w p) \<and> os_major_differs t (read_json w' p))"
  shows "get_host_summary (run_calls w' calls st0) = get_host_summary (run_calls w calls st0) \<and>
         get_merged_installed_rpms (run_calls w' calls st0) = get_merged_installed_rpms (run_calls w calls st0) \<and>
         (\<forall>m \<in> set (manifests (run_calls w calls st0)). os_major_matches t m)"
proof -
  from assms(1) have t: "os_major st0 = t" and e: "manifests st0 = []"
    by (auto simp: ManifestMerger_init_def split: if_splits)
  have "agree (os_major st0) w w'" using assms t by (simp add: agree_def)
  then have eq: "run_calls w' calls st0 = run_calls w calls st0" by (rule run_calls_agree)
  have "all_match st0" using e by (simp add: all_match_def)
  then have "all_match (run_calls w calls st0)" by (rule run_calls_all_match)
  with eq t show ?thesis by (simp add: all_match_def)
qed

theorem rejected_manifests_leave_no_trace_witness:
  "ManifestMerger_init 9 = Inr merger9 \<and>
   os_major_differs 9 (read_json sample_world [''manifests'', ''test-host-rhel8-manifest.json'']) \<and>
   get_host_summary (run_calls other_world [AddFromDirectory [''manifests'']] merger9) =
     get_host_summary (run_calls sample_world [AddFromDirectory [''manifests'']] merger9) \<and>
   get_merged_installed_rpms (run_calls other_world [AddFromDirectory [''manifests'']] merger9) =
     get_merged_installed_rpms (run_calls sample_world [AddFromDirectory [''manifests'']] merger9) \<and>
   list_all (os_major_matches 9)
     (manifests (run_calls sample_world [AddFromDirectory [''manifests'']] merger9))"
proof -
  have i: "ManifestMerger_init 9 = Inr merger9"
    by (simp add: ManifestMerger_init_def merger9_def)
  have l: "list_dir other_world = list_dir sample_world"
    by (simp add: other_world_def)
  have h: "sha256_json other_world = sha256_json sample_world"
    by (simp add: other_world_def)
  have d8: "os_major_differs 9 (Loaded sample_manifest_rhel8)"
    by (simp add: os_major_differs_def manifest_os_major_def sample_manifest_rhel8_def py_eq_int_def)
  have d0: "os_major_differs 9 (Loaded (JObj [(''host_id'', JStr ''intruder''),
      (''installed_rpms'', JArr [rpm_entry ''nmap'' ''0'' ''7.9'' ''1'' ''x86_64'' ''nmap-7.9-1.x86_64''])]))"
    by (simp add: os_major_differs_def manifest_os_major_def py_eq_int_def)
  have r: "\<forall>p. read_json other_world p = read_json sample_world p \<or>
          (os_major_differs 9 (read_json sample_world p) \<and> os_major_differs 9 (read_json other_world p))"
    using d8 d0 by (simp add: other_world_def sample_world_def)
  have d: "os_major_differs 9 (read_json sample_world [''manifests'', ''test-host-rhel8-manifest.json''])"
    using d8 by (simp add: sample_world_def)
  from rejected_manifests_leave_no_trace[OF i l h r, of "[AddFromDirectory [''manifests'']]"] i d
  show ?thesis by (simp add: list_all_iff)
qed



text \<open>
  Claim C4, as the code has it. A file that cannot be read or parsed is not skipped with
  \<open>False\<close>: \<open>add_manifest\<close> raises, and so does \<open>add_manifests_from_directory\<close>
  when the file is named \<open>*-manifest.json\<close> (only its second loop catches
  \<open>JSONDecodeError\<close> and \<open>KeyError\<close>).
\<close>

theorem malformed_manifest_raises:
  "snd (add_manifest broken_world [''manifests'', ''truncated-manifest.json''] merger9) = Inl JSONDecodeError \<and>
   snd (add_manifests_from_directory broken_world [''manifests''] merger9) = Inl JSONDecodeError"
proof
  show "snd (add_manifest broken_world [''manifests'', ''truncated-manifest.json''] merger9) = Inl JSONDecodeError"
    by (simp add: add_manifest_def broken_world_def)
  have n1: "ends_with ''test-host-01-manifest.json'' ''-manifest.json''"
    and n2: "ends_with ''test-host-rhel8-manifest.json'' ''-manifest.json''"
    and n3: "ends_with ''truncated-manifest.json'' ''-manifest.json''"
    by (simp_all add: ends_with_def)
  have a1: "add_manifest broken_world [''manifests'', ''test-host-01-manifest.json''] merger9 = (once9, Inr True)"
    by (simp add: add_manifest_def broken_world_def sample_world_def merger9_def once9_def manifest_os_major_def
        sample_manifest_def sample_manifest_dict_def py_eq_int_def)
  have a2: "add_manifest broken_world [''manifests'', ''test-host-rhel8-manifest.json''] once9 = (once9, Inr False)"
    by (simp add: add_manifest_def broken_world_def sample_world_def once9_def manifest_os_major_def
        sample_manifest_rhel8_def py_eq_int_def)
  have a3: "add_manifest broken_world [''manifests'', ''truncated-manifest.json''] once9 = (once9, Inl JSONDecodeError)"
    by (simp add: add_manifest_def broken_world_def)
  have l: "list_dir broken_world [''manifests''] =
      [''test-host-01-manifest.json'', ''test-host-rhel8-manifest.json'', ''truncated-manifest.json'']"
    by (simp add: broken_world_def)
  show "snd (add_manifests_from_directory broken_world [''manifests''] merger9) = Inl JSONDecodeError"
    by (simp add: add_manifests_from_directory_def l n1 n2 n3 a1 a2 a3)
qed

text \<open>
  Claim C4, amended. \<open>add_manifest\<close> returns \<open>True\<close> exactly for a file that loads as
  a dict whose \<open>os\<close> is a dict (or absent) with the target's major and whose \<open>host_id\<close>
  is absent or hashable, and it appends that manifest; it returns \<open>False\<close> exactly for a
  file that loads as a dict whose \<open>os\<close> is a dict (or absent) with another major,
  whatever else it holds; for every other file it raises; and unless it returns
  \<open>True\<close> it leaves the merger as it was. \<open>add_manifests_from_directory\<close> returns a
  count exactly when \<open>add_manifest\<close> returns \<open>True\<close> or \<open>False\<close> for every
  \<open>*-manifest.json\<close> file and, for every other \<open>*.json\<close> file whose name does not
  contain \<open>-manifest\<close>, either does so or fails to load with \<open>JSONDecodeError\<close> or
  \<open>KeyError\<close>, the two exceptions the second loop passes over; the count is then the
  number of accepted files, and their manifests are what the merger gains. In every other
  case it raises.
\<close>

theorem add_manifest_decides_by_os_major:
  "(snd (add_manifest w p st) = Inr True \<longleftrightarrow> accepted w (os_major st) p) \<and>
   (snd (add_manifest w p st) = Inr False \<longleftrightarrow> os_major_differs (os_major st) (read_json w p)) \<and>
   ((\<exists>e. snd (add_manifest w p st) = Inl e) \<longleftrightarrow> \<not> decided w (os_major st) p) \<and>
   (accepted w (os_major st) p \<longrightarrow>
      manifests (fst (add_manifest w p st)) = manifests st @ [loaded w p]) \<and>
   (\<not> accepted w (os_major st) p \<longrightarrow> fst (add_manifest w p st) = st) \<and>
   ((\<exists>n. snd (add_manifests_from_directory w d st) = Inr n) \<longleftrightarrow> ingestible w (os_major st) d) \<and>
   (ingestible w (os_major st) d \<longrightarrow>
      snd (add_manifests_from_directory w d st) =
        Inr (length (accepted_from w (os_major st) d (dir_files w d))) \<and>
      manifests (fst (add_manifests_from_directory w d st)) =
        manifests st @ accepted_from w (os_major st) d (dir_files w d))"
proof (intro conjI impI)
  show "snd (add_manifest w p st) = Inr True \<longleftrightarrow> accepted w (os_major st) p"
    by (rule add_manifest_true_iff)
  show "snd (add_manifest w p st) = Inr False \<longleftrightarrow> os_major_differs (os_major st) (read_json w p)"
    by (rule add_manifest_false_iff)
  show "(\<exists>e. snd (add_manifest w p st) = Inl e) \<longleftrightarrow> \<not> decided w (os_major st) p"
    by (rule add_manifest_raises_iff)
  show "(\<exists>n. snd (add_manifests_from_directory w d st) = Inr n) \<longleftrightarrow> ingestible w (os_major st) d"
  proof
    assume r: "\<exists>n. snd (add_manifests_from_directory w d st) = Inr n"
    show "ingestible w (os_major st) d"
    proof (rule ccontr)
      assume "\<not> ingestible w (os_major st) d"
      from directory_raises[OF this] r show False by auto
    qed
  next
    assume "ingestible w (os_major st) d"
    from directory_ingestible[OF this]
    show "\<exists>n. snd (add_manifests_from_directory w d st) = Inr n" by simp
  qed
next
  assume "accepted w (os_major st) p"
  from add_manifest_accepted[OF this]
  show "manifests (fst (add_manifest w p st)) = manifests st @ [loaded w p]" by simp
next
  assume "\<not> accepted w (os_major st) p"
  then show "fst (add_manifest w p st) = st" by (rule add_manifest_not_accepted)
next
  assume a: "ingestible w (os_major st) d"
  from directory_ingestible[OF a]
  show "snd (add_manifests_from_directory w d st) =
        Inr (length (accepted_from w (os_major st) d (dir_files w d)))"
    and "manifests (fst (add_manifests_from_directory w d st)) =
        manifests st @ accepted_from w (os_major st) d (dir_files w d)"
    by simp_all
qed

theorem add_manifest_decides_by_os_major_witness:
  "os_major_differs 9 (read_json stray_world [''manifests'', ''inventory.json'']) \<and>
   add_manifest stray_world [''manifests'', ''inventory.json''] merger9 = (merger9, Inr False) \<and>
   swallowed stray_world [''manifests'', ''notes.json''] \<and>
   ingestible stray_world 9 [''manifests''] \<and>
   snd (add_manifests_from_directory stray_world [''manifests''] merger9) = Inr 1 \<and>
   manifests (fst (add_manifests_from_directory stray_world [''manifests''] merger9)) = [sample_manifest]"
proof -
  have d: "os_major_differs 9 (read_json stray_world [''manifests'', ''inventory.json''])"
    by code_simp
  have na: "\<not> accepted stray_world 9 [''manifests'', ''inventory.json'']"
    by code_simp
  have sw: "swallowed stray_world [''manifests'', ''notes.json'']"
    by code_simp
  have i: "ingestible stray_world 9 [''manifests'']"
    by code_simp
  have f: "accepted_from stray_world 9 [''manifests''] (dir_files stray_world [''manifests'']) = [sample_manifest]"
    by code_simp
  have o: "os_major merger9 = 9" and e: "manifests merger9 = []" by (simp_all add: merger9_def)
  from add_manifest_decides_by_os_major[of stray_world "[''manifests'', ''inventory.json'']"
      merger9 "[''manifests'']"] d na i
  have "snd (add_manifest stray_world [''manifests'', ''inventory.json''] merger9) = Inr False"
    and "fst (add_manifest stray_world [''manifests'', ''inventory.json''] merger9) = merger9"
    and "snd (add_manifests_from_directory stray_world [''manifests''] merger9) = Inr 1"
    and "manifests (fst (add_manifests_from_directory stray_world [''manifests''] merger9)) = [sample_manifest]"
    by (simp_all add: o e f)
  with d sw i show ?thesis by (simp add: prod_eq_iff)
qed

subsection \<open>The validator\<close>

lemma errors_add_error [simp]: "errors (add_error e v) = errors v @ [e]"
  by (simp add: add_error_def)

lemma errors_add_warning [simp]: "errors (add_warning e v) = errors v"
  by (simp add: add_warning_def)

lemma fold_keeps_errors:
  assumes "\<And>x v. set (errors v) \<subseteq> set (errors (f x v))"
  shows "set (errors v) \<subseteq> set (errors (fold f xs v))"
proof (induction xs arbitrary: v)
  case Nil
  show ?case by simp
next
  case (Cons x xs)
  have "set (errors v) \<subseteq> set (errors (f x v))" by (rule assms)
  also have "\<dots> \<subseteq> set (errors (fold f xs (f x v)))" by (rule Cons.IH)
  finally show ?case by simp
qed

lemma validate_arch_keeps: "set (errors v) \<subseteq> set (errors (validate_arch d v))"
  by (auto simp: validate_arch_def Let_def)

lemma validate_repo_keeps: "set (errors v) \<subseteq> set (errors (validate_repo repos i v))"
  by (auto simp: validate_repo_def Let_def split: json.splits)

lemma validate_repos_keeps: "set (errors v) \<subseteq> set (errors (validate_repos d v))"
proof (cases "dict_get d ''enabled_repos'' (JArr [])")
  case (JArr repos)
  then show ?thesis
    using fold_keeps_errors[of "validate_repo repos", OF validate_repo_keeps]
    by (simp add: validate_repos_def)
qed (auto simp: validate_repos_def)

lemma validate_rpm_keeps: "set (errors v) \<subseteq> set (errors (validate_rpm rpms i v))"
proof (cases "rpms ! i")
  case (JObj rpm)
  have "set (errors v) \<subseteq> set (errors (fold (\<lambda>field v. if \<not> dict_has rpm field
                                      then add_error (InstalledRpmMissingField i field) v else v)
                      REQUIRED_RPM_FIELDS v))"
    by (rule fold_keeps_errors) auto
  with JObj show ?thesis by (auto simp: validate_rpm_def Let_def)
qed (auto simp: validate_rpm_def)

lemma validate_rpms_keeps: "set (errors v) \<subseteq> set (errors (validate_rpms d v))"
proof (cases "dict_get d ''installed_rpms'' (JArr [])")
  case (JArr rpms)
  then show ?thesis
    using fold_keeps_errors[of "validate_rpm rpms", OF validate_rpm_keeps]
    by (simp add: validate_rpms_def Let_def)
qed (auto simp: validate_rpms_def)

lemma validate_timestamp_keeps: "set (errors v) \<subseteq> set (errors (validate_timestamp d v))"
  by (auto simp: validate_timestamp_def Let_def split: json.splits)

lemma later_steps_keep:
  "set (errors v) \<subseteq>
     set (errors (validate_timestamp d (validate_rpms d (validate_repos d (validate_arch d v)))))"
  using validate_arch_keeps validate_repos_keeps validate_rpms_keeps validate_timestamp_keeps
  by (meson subset_trans)

lemma validate_os_fields_obj:
  "\<exists>v'. validate_os_fields (JObj osd) fs v = Inr v' \<and> set (errors v) \<subseteq> set (errors v') \<and>
        (\<forall>f \<in> set fs. map_of osd f = None \<longrightarrow> MissingRequiredOsField f \<in> set (errors v'))"
proof (induction fs arbitrary: v)
  case Nil
  show ?case by simp
next
  case (Cons f fs)
  let ?v1 = "if \<not> (map_of osd f \<noteq> None) then add_error (MissingRequiredOsField f) v else v"
  from Cons.IH[of ?v1] obtain v' where
    r: "validate_os_fields (JObj osd) fs ?v1 = Inr v'" and
    k: "set (errors ?v1) \<subseteq> set (errors v')" and
    m: "\<forall>f \<in> set fs. map_of osd f = None \<longrightarrow> MissingRequiredOsField f \<in> set (errors v')"
    by blast
  have "validate_os_fields (JObj osd) (f # fs) v = Inr v'" using r by simp
  moreover have "set (errors v) \<subseteq> set (errors v')" using k by (auto split: if_splits)
  moreover have "map_of osd f = None \<longrightarrow> MissingRequiredOsField f \<in> set (errors v')"
    using k by auto
  ultimately show ?case using m by auto
qed

lemma validate_os_obj:
  assumes "dict_get d ''os'' (JObj []) = JObj osd"
  shows "\<exists>v'. validate_os d v = Inr v' \<and>
     (map_of osd ''major'' = None \<longrightarrow> MissingRequiredOsField ''major'' \<in> set (errors v')) \<and>
     (\<forall>x. map_of osd ''major'' = Some x \<and> x \<noteq> JNull \<and> \<not> py_eq_int x 8 \<and> \<not> py_eq_int x 9
          \<longrightarrow> InvalidOsMajor x \<in> set (errors v'))"
proof -
  from validate_os_fields_obj[of osd REQUIRED_OS_FIELDS v] obtain v1 where
    r: "validate_os_fields (JObj osd) REQUIRED_OS_FIELDS v = Inr v1" and
    m: "\<forall>f \<in> set REQUIRED_OS_FIELDS. map_of osd f = None \<longrightarrow> MissingRequiredOsField f \<in> set (errors v1)"
    by blast
  from m have m': "map_of osd ''major'' = None \<longrightarrow> MissingRequiredOsField ''major'' \<in> set (errors v1)"
    by (simp add: REQUIRED_OS_FIELDS_def)
  show ?thesis
    using assms r m'
    by (auto simp: validate_os_def Let_def VALID_OS_MAJORS_def split: option.splits)
qed

lemma validate_after_os:
  assumes "validate_os d (validate_schema_version d (validate_required_fields d \<lparr>errors = [], warnings = []\<rparr>)) = Inr v'"
  shows "validate d =
    Inr (length (errors (validate_timestamp d (validate_rpms d (validate_repos d (validate_arch d v'))))) = 0,
         errors (validate_timestamp d (validate_rpms d (validate_repos d (validate_arch d v')))),
         warnings (validate_timestamp d (validate_rpms d (validate_repos d (validate_arch d v')))))"
  unfolding validate_def assms by (simp only: bind_err_simps Let_def)


lemma os_major_error_found:
  assumes a: "map_of osd ''major'' = None \<longrightarrow> MissingRequiredOsField ''major'' \<in> set es"
    and b: "\<forall>x. map_of osd ''major'' = Some x \<and> x \<noteq> JNull \<and> \<not> py_eq_int x 8 \<and> \<not> py_eq_int x 9
          \<longrightarrow> InvalidOsMajor x \<in> set es"
    and c: "map_of osd ''major'' = None \<or>
         (\<exists>x. map_of osd ''major'' = Some x \<and> x \<noteq> JNull \<and> \<not> py_eq_int x 8 \<and> \<not> py_eq_int x 9)"
  shows "\<exists>e. e \<in> set es \<and> about_os_major e"
proof (cases "map_of osd ''major''")
  case None
  with a have "MissingRequiredOsField ''major'' \<in> set es" by simp
  moreover have "about_os_major (MissingRequiredOsField ''major'')" by simp
  ultimately show ?thesis by blast
next
  case (Some x)
  from c Some have "x \<noteq> JNull \<and> \<not> py_eq_int x 8 \<and> \<not> py_eq_int x 9" by simp
  with b Some have "InvalidOsMajor x \<in> set es" by blast
  moreover have "about_os_major (InvalidOsMajor x)" by simp
  ultimately show ?thesis by blast
qed

lemma dict_agree:
  assumes "\<forall>k. k \<noteq> ''installed_rpms'' \<longrightarrow> map_of d1 k = map_of d2 k"
  shows "k \<noteq> ''installed_rpms'' \<Longrightarrow> dict_get d1 k x = dict_get d2 k x"
    and "k \<noteq> ''installed_rpms'' \<Longrightarrow> dict_has d1 k = dict_has d2 k"
  using assms by (simp_all add: dict_get_def dict_has_def)

lemma required_fields_agree:
  assumes "\<forall>k. k \<noteq> ''installed_rpms'' \<longrightarrow> map_of d1 k = map_of d2 k"
    and "dict_has d1 ''installed_rpms'' = dict_has d2 ''installed_rpms''"
  shows "validate_required_fields d1 v = validate_required_fields d2 v"
proof -
  have "\<And>k. dict_has d1 k = dict_has d2 k"
    using assms dict_agree(2)[OF assms(1)] by (case_tac "k = ''installed_rpms''") simp_all
  then show ?thesis by (simp add: validate_required_fields_def)
qed

lemma validate_rpm_nth:
  "r1 ! i = r2 ! i \<Longrightarrow> validate_rpm r1 i v = validate_rpm r2 i v"
  by (simp add: validate_rpm_def)

lemma take_eq_min_length:
  assumes "take n r1 = take n r2"
  shows "min (length r1) n = min (length r2) n"
  using arg_cong[OF assms, of length] by simp

lemma take_eq_nth:
  assumes "take n r1 = take n r2" and "i < n"
  shows "r1 ! i = r2 ! i"
proof -
  from assms(2) have "r1 ! i = take n r1 ! i" "r2 ! i = take n r2 ! i" by simp_all
  with assms(1) show ?thesis by simp
qed

lemma take_eq_empty:
  assumes "take n r1 = take n r2" and "0 < n"
  shows "r1 = [] \<longleftrightarrow> r2 = []"
  using assms by (cases r1; cases r2; cases n) simp_all

lemma sample_fold_agree:
  assumes "take n r1 = take n r2"
  shows "fold (validate_rpm r1) [0..<min (length r1) n] v =
         fold (validate_rpm r2) [0..<min (length r2) n] v"
proof (rule fold_cong)
  show "v = v" ..
  show "[0..<min (length r1) n] = [0..<min (length r2) n]"
    using take_eq_min_length[OF assms] by simp
  fix i assume "i \<in> set [0..<min (length r1) n]"
  then have "i < n" by simp
  with assms have "r1 ! i = r2 ! i" by (rule take_eq_nth)
  then show "validate_rpm r1 i = validate_rpm r2 i"
    by (intro ext validate_rpm_nth)
qed

lemma validate_rpms_list:
  assumes "dict_get d ''installed_rpms'' (JArr []) = JArr r"
  shows "validate_rpms d v =
     (if r = [] then add_warning InstalledRpmsEmpty v
      else fold (validate_rpm r) [0..<min (length r) 100] v)"
  unfolding validate_rpms_def assms by (simp only: json.case Let_def length_0_conv)

lemma validate_rpms_agree:
  assumes "dict_get d1 ''installed_rpms'' (JArr []) = JArr r1"
    and "dict_get d2 ''installed_rpms'' (JArr []) = JArr r2"
    and "take 100 r1 = take 100 r2"
  shows "validate_rpms d1 v = validate_rpms d2 v"
proof -
  have e: "r1 = [] \<longleftrightarrow> r2 = []" using assms(3) by (rule take_eq_empty) simp
  show ?thesis
    unfolding validate_rpms_list[OF assms(1)] validate_rpms_list[OF assms(2)]
      sample_fold_agree[OF assms(3)] e ..
qed

text \<open>
  Claim C8. \<open>validate\<close> depends on \<open>installed_rpms\<close> only through its first 100
  entries: two manifests that agree on every other key and whose RPM lists have the same
  first 100 entries get the same result (the same outcome, errors and warnings, or the
  same exception).
\<close>

theorem validate_samples_first_100_rpms:
  assumes "\<forall>k. k \<noteq> ''installed_rpms'' \<longrightarrow> map_of d1 k = map_of d2 k"
    and "map_of d1 ''installed_rpms'' = Some (JArr r1)"
    and "map_of d2 ''installed_rpms'' = Some (JArr r2)"
    and "take 100 r1 = take 100 r2"
  shows "validate d1 = validate d2"
proof -
  note ag = dict_agree[OF assms(1)]
  have h: "dict_has d1 ''installed_rpms'' = dict_has d2 ''installed_rpms''"
    using assms(2,3) by (simp add: dict_has_def)
  have g1: "dict_get d1 ''installed_rpms'' (JArr []) = JArr r1"
    and g2: "dict_get d2 ''installed_rpms'' (JArr []) = JArr r2"
    using assms(2,3) by (simp_all add: dict_get_def)
  have 1: "\<And>v. validate_required_fields d1 v = validate_required_fields d2 v"
    using assms(1) h by (rule required_fields_agree)
  have 2: "\<And>v. validate_schema_version d1 v = validate_schema_version d2 v"
    by (simp add: validate_schema_version_def ag)
  have 3: "\<And>v. validate_os d1 v = validate_os d2 v"
    by (simp add: validate_os_def ag)
  have 4: "\<And>v. validate_arch d1 v = validate_arch d2 v"
    by (simp add: validate_arch_def ag)
  have 5: "\<And>v. validate_repos d1 v = validate_repos d2 v"
    by (simp add: validate_repos_def ag)
  have 6: "\<And>v. validate_rpms d1 v = validate_rpms d2 v"
    using g1 g2 assms(4) by (rule validate_rpms_agree)
  have 7: "\<And>v. validate_timestamp d1 v = validate_timestamp d2 v"
    by (simp add: validate_timestamp_def ag)
  show ?thesis
    unfolding validate_def 1 2 3 4 5 6 7 ..
qed

theorem validate_samples_first_100_rpms_witness:
  "validate (big_manifest [JNull]) = validate (big_manifest [JStr ''junk'', JInt 3])"
proof -
  have a: "\<forall>k. k \<noteq> ''installed_rpms'' \<longrightarrow>
      map_of (big_manifest [JNull]) k = map_of (big_manifest [JStr ''junk'', JInt 3]) k"
    by (simp add: big_manifest_def)
  have t: "take 100 (replicate 100 (rpm_entry ''bash'' ''0'' ''5.1.8'' ''6.el9'' ''x86_64'' ''bash-5.1.8-6.el9.x86_64'') @ [JNull]) =
           take 100 (replicate 100 (rpm_entry ''bash'' ''0'' ''5.1.8'' ''6.el9'' ''x86_64'' ''bash-5.1.8-6.el9.x86_64'') @ [JStr ''junk'', JInt 3])"
    by simp
  show ?thesis
    by (rule validate_samples_first_100_rpms[OF a _ _ t]) (simp_all add: big_manifest_def)
qed

text \<open>
  Claim C9, as the code has it. An explicit \<open>null\<close> for \<open>os.major\<close> is not in
  \<open>{8, 9}\<close>, yet the guard \<open>major is not None\<close> skips the check and the key is
  present: the fixture with \<open>"major": null\<close> validates with no error at all.
\<close>

theorem null_os_major_passes:
  "validate (manifest_with_major JNull) = Inr (True, [], [])"
  by code_simp

text \<open>
  Claim C9, amended. For every manifest whose \<open>os\<close> is a dict (or absent) and whose
  \<open>os.major\<close> is missing, or is a value other than \<open>null\<close> that equals neither 8 nor
  9, \<open>validate\<close> returns invalid, with an error about the OS major among its errors
  (\<open>Missing required os field: major\<close> or \<open>Invalid OS major version\<close>).
\<close>

theorem invalid_os_major_is_an_error:
  assumes "dict_get d ''os'' (JObj []) = JObj osd"
    and "map_of osd ''major'' = None \<or>
         (\<exists>x. map_of osd ''major'' = Some x \<and> x \<noteq> JNull \<and> \<not> py_eq_int x 8 \<and> \<not> py_eq_int x 9)"
  shows "\<exists>es ws. validate d = Inr (False, es, ws) \<and> (\<exists>e \<in> set es. about_os_major e)"
proof -
  define v0 where "v0 = validate_schema_version d (validate_required_fields d \<lparr>errors = [], warnings = []\<rparr>)"
  from validate_os_obj[OF assms(1), of v0] obtain v' where
    h: "validate_os d v0 = Inr v' \<and>
     (map_of osd ''major'' = None \<longrightarrow> MissingRequiredOsField ''major'' \<in> set (errors v')) \<and>
     (\<forall>x. map_of osd ''major'' = Some x \<and> x \<noteq> JNull \<and> \<not> py_eq_int x 8 \<and> \<not> py_eq_int x 9
          \<longrightarrow> InvalidOsMajor x \<in> set (errors v'))"
    by (rule exE)
  note r = h[THEN conjunct1] and a = h[THEN conjunct2, THEN conjunct1]
    and b = h[THEN conjunct2, THEN conjunct2]
  from os_major_error_found[OF a b assms(2)]
  obtain e where e': "e \<in> set (errors v') \<and> about_os_major e" by (rule exE)
  note e = e'[THEN conjunct1] e'[THEN conjunct2]
  define v where "v = validate_timestamp d (validate_rpms d (validate_repos d (validate_arch d v')))"
  have "set (errors v') \<subseteq> set (errors v)" unfolding v_def by (rule later_steps_keep)
  with e(1) have m: "e \<in> set (errors v)" by (rule subsetD[rotated])
  then have ne: "errors v \<noteq> []" by (cases "errors v") simp_all
  have "validate d = Inr (length (errors v) = 0, errors v, warnings v)"
    unfolding v_def by (rule validate_after_os) (use r in \<open>simp only: v0_def\<close>)
  with ne have "validate d = Inr (False, errors v, warnings v)" by simp
  moreover from m e(2) have "\<exists>e \<in> set (errors v). about_os_major e" by (rule bexI[rotated])
  ultimately show ?thesis by (intro exI conjI)
qed

theorem invalid_os_major_is_an_error_witness:
  "dict_get (manifest_with_major (JInt 7)) ''os'' (JObj []) =
     JObj [(''name'', JStr ''Red Hat Enterprise Linux''), (''major'', JInt 7),
           (''minor'', JInt 6), (''id'', JStr ''rhel'')] \<and>
   (\<exists>es ws. validate (manifest_with_major (JInt 7)) = Inr (False, es, ws) \<and>
      (\<exists>e \<in> set es. about_os_major e))"
proof -
  have o: "dict_get (manifest_with_major (JInt 7)) ''os'' (JObj []) =
     JObj [(''name'', JStr ''Red Hat Enterprise Linux''), (''major'', JInt 7),
           (''minor'', JInt 6), (''id'', JStr ''rhel'')]"
    by (simp add: dict_get_def manifest_with_major_def sample_manifest_dict_def)
  have m: "map_of [(''name'', JStr ''Red Hat Enterprise Linux''), (''major'', JInt 7),
           (''minor'', JInt 6), (''id'', JStr ''rhel'')] ''major'' = None \<or>
         (\<exists>x. map_of [(''name'', JStr ''Red Hat Enterprise Linux''), (''major'', JInt 7),
           (''minor'', JInt 6), (''id'', JStr ''rhel'')] ''major'' = Some x \<and> x \<noteq> JNull \<and>
            \<not> py_eq_int x 8 \<and> \<not> py_eq_int x 9)"
    by (simp add: py_eq_int_def)
  from invalid_os_major_is_an_error[OF o m] o show ?thesis by (rule conjI[rotated])
qed

text \<open>
  A manifest that \<open>validate\<close> takes to its end has a dict for \<open>os\<close>; with a string
  for \<open>host_id\<close> and the merger's OS major it is therefore accepted by
  \<open>add_manifest\<close>.
\<close>

lemma validate_os_returns_dict:
  assumes "validate_os d v = Inr v'"
  shows "\<exists>osd. dict_get d ''os'' (JObj []) = JObj osd"
proof (cases "dict_get d ''os'' (JObj [])")
  case (JObj osd)
  then show ?thesis by simp
qed (use assms in \<open>simp_all add: validate_os_def REQUIRED_OS_FIELDS_def\<close>)

lemma validate_returns_dict:
  assumes "validate d = Inr res"
  shows "\<exists>osd. dict_get d ''os'' (JObj []) = JObj osd"
proof (cases "validate_os d (validate_schema_version d (validate_required_fields d \<lparr>errors = [], warnings = []\<rparr>))")
  case (Inl e)
  with assms show ?thesis by (simp add: validate_def)
next
  case (Inr v')
  then show ?thesis by (rule validate_os_returns_dict)
qed

lemma valid_manifest_is_accepted:
  assumes "read_json w p = Loaded (JObj d)"
    and "validate d = Inr res"
    and "map_of d ''host_id'' = Some (JStr h)"
    and "os_major_matches (os_major st) (JObj d)"
  shows "snd (add_manifest w p st) = Inr True"
proof -
  have "host_id_usable (JObj d) p" using assms(3) by (simp add: host_id_usable_def)
  with assms(1,4) have "accepted w (os_major st) p" by (simp add: accepted_def)
  then show ?thesis by (simp add: add_manifest_true_iff)
qed

subsection \<open>The resolver\<close>

lemma classify_type:
  "package_type (classify security updates pkg) =
     (if pkg_name pkg \<in> security then ''security''
      else if pkg_name pkg \<in> updates then ''update'' else ''dependency'')"
  by (simp add: classify_def)

lemma classify_name [simp]: "pkg_name (classify security updates pkg) = pkg_name pkg"
  by (simp add: classify_def)

lemma resolve_result:
  assumes "resolve a r = (r', Inr pkgs)"
  shows "resolved r' = pkgs \<and>
         (update_set a = {} \<and> pkgs = [] \<or>
          (\<exists>closure errs. dependency_closure a (update_set a) = Inr (closure, errs) \<and>
              pkgs = map (classify (security_set a r) (update_set a)) closure))"
proof (cases "available_updates a")
  case (Inl e)
  with assms show ?thesis by (simp add: resolve_def Let_def)
next
  case (Inr ue)
  obtain updates errs1 where ue: "ue = (updates, errs1)" by (cases ue)
  have u: "update_set a = updates" using Inr ue by (simp add: update_set_def)
  show ?thesis
  proof (cases "updates = {}")
    case True
    with assms Inr ue u show ?thesis by (auto simp: resolve_def Let_def)
  next
    case False
    show ?thesis
    proof (cases "if prefer_security r then security_updates a else Inr ({}, [])")
      case (Inl e)
      with assms \<open>available_updates a = Inr ue\<close> ue False show ?thesis
        by (simp add: resolve_def Let_def)
    next
      case sec: (Inr se)
      obtain security errs2 where se: "se = (security, errs2)" by (cases se)
      have s: "security_set a r = security"
        using sec se by (auto simp: security_set_def split: if_splits)
      show ?thesis
      proof (cases "dependency_closure a updates")
        case (Inl e)
        with assms \<open>available_updates a = Inr ue\<close> ue False sec se show ?thesis
          by (simp add: resolve_def Let_def)
      next
        case (Inr ce)
        obtain closure errs3 where ce: "ce = (closure, errs3)" by (cases ce)
        from assms \<open>available_updates a = Inr ue\<close> ue False sec se Inr ce
        have "pkgs = map (classify security updates) closure" and "resolved r' = pkgs"
          by (auto simp: resolve_def Let_def)
        with Inr ce u s show ?thesis by simp
      qed
    qed
  qed
qed

text \<open>
  Claim C1. Whenever \<open>resolve\<close> returns, the list it returns (and stores in
  \<open>self.resolved\<close>) is the dependency closure with each package given exactly one type:
  \<open>security\<close> if its name is in the security set, else \<open>update\<close> if it is in the
  update set, else \<open>dependency\<close>. A package whose name is in both sets is
  \<open>security\<close>, not \<open>update\<close>.
\<close>

theorem resolve_classifies_by_priority:
  assumes "resolve a r = (r', Inr pkgs)"
  shows "resolved r' = pkgs \<and>
         (\<forall>pkg \<in> set pkgs.
            package_type pkg =
              (if pkg_name pkg \<in> security_set a r then ''security''
               else if pkg_name pkg \<in> update_set a then ''update'' else ''dependency'')) \<and>
         (\<forall>pkg \<in> set pkgs.
            pkg_name pkg \<in> security_set a r \<and> pkg_name pkg \<in> update_set a \<longrightarrow>
            package_type pkg = ''security'' \<and> package_type pkg \<noteq> ''update'') \<and>
         (update_set a \<noteq> {} \<longrightarrow>
            (\<exists>closure errs. dependency_closure a (update_set a) = Inr (closure, errs) \<and>
               pkgs = map (classify (security_set a r) (update_set a)) closure))"
proof -
  from resolve_result[OF assms] have r: "resolved r' = pkgs"
    and d: "update_set a = {} \<and> pkgs = [] \<or>
          (\<exists>closure errs. dependency_closure a (update_set a) = Inr (closure, errs) \<and>
              pkgs = map (classify (security_set a r) (update_set a)) closure)"
    by simp_all
  have t: "\<forall>pkg \<in> set pkgs.
            package_type pkg =
              (if pkg_name pkg \<in> security_set a r then ''security''
               else if pkg_name pkg \<in> update_set a then ''update'' else ''dependency'')"
    using d by (auto simp: classify_type)
  from r t d show ?thesis by auto
qed

theorem resolve_classifies_by_priority_witness:
  "map package_type (resolved (fst (resolve sample_answers sample_resolver))) =
     [''update'', ''security'', ''dependency''] \<and>
   list_all (\<lambda>pkg. package_type pkg =
              (if pkg_name pkg \<in> security_set sample_answers sample_resolver then ''security''
               else if pkg_name pkg \<in> update_set sample_answers then ''update'' else ''dependency''))
     (resolved (fst (resolve sample_answers sample_resolver)))"
proof -
  obtain r' res where h: "resolve sample_answers sample_resolver = (r', res)"
    by (cases "resolve sample_answers sample_resolver")
  have s: "snd (resolve sample_answers sample_resolver) =
     Inr (map (classify {''openssl''} {''bash'', ''openssl''})
            [mk_pkg ''bash'' ''bash-1.0-1.el9.x86_64'',
              mk_pkg ''openssl'' ''openssl-1.0-1.el9.x86_64'',
              mk_pkg ''readline'' ''readline-1.0-1.el9.x86_64''])"
    by (simp add: resolve_def sample_answers_def sample_resolver_def Let_def)
  with h obtain pkgs where h': "resolve sample_answers sample_resolver = (r', Inr pkgs)"
    and p: "pkgs = map (classify {''openssl''} {''bash'', ''openssl''})
            [mk_pkg ''bash'' ''bash-1.0-1.el9.x86_64'',
              mk_pkg ''openssl'' ''openssl-1.0-1.el9.x86_64'',
              mk_pkg ''readline'' ''readline-1.0-1.el9.x86_64'']"
    by simp
  have t: "map package_type pkgs = [''update'', ''security'', ''dependency'']"
    unfolding p by (simp add: classify_def mk_pkg_def)
  from resolve_classifies_by_priority[OF h'] h' t show ?thesis
    by (simp add: list_all_iff)
qed










lemma bfs_loop_iter:
  "(bfs_iter q packages k st = Inl e \<longrightarrow> bfs_loop q packages st = Some (Inl e)) \<and>
   (bfs_iter q packages k st = Inr st' \<and> to_process st' = [] \<longrightarrow> bfs_loop q packages st = Some (Inr st'))"
proof (induction k arbitrary: st)
  case 0
  show ?case by (subst bfs_loop.simps) simp
next
  case (Suc k)
  show ?case
  proof (cases "to_process st")
    case Nil
    then show ?thesis by (subst bfs_loop.simps) auto
  next
    case (Cons n rest)
    show ?thesis
    proof (cases "bfs_body q packages n (st\<lparr>to_process := rest\<rparr>)")
      case (Inl e')
      with Cons show ?thesis by (subst bfs_loop.simps) simp
    next
      case (Inr st1)
      with Cons have "bfs_loop q packages st = bfs_loop q packages st1"
        by (subst bfs_loop.simps) simp
      with Suc.IH[of st1] Cons Inr show ?thesis by simp
    qed
  qed
qed







subsection \<open>The downloader\<close>

text \<open>
  The results \<open>download_packages\<close> returns are well formed: a successful one carries
  the digest computed for its file (a SHA-256 hex digest is never empty) and its path.
\<close>

lemma found_result_well_formed:
  "dw_sha256 dw (download_dir @ [f]) \<noteq> [] \<Longrightarrow> well_formed_result (found_result dw download_dir pkg f)"
  by (simp add: well_formed_result_def found_result_def)

lemma verify_download_well_formed:
  assumes "\<forall>p. dw_sha256 dw p \<noteq> []"
  shows "well_formed_result (verify_download dw download_dir downloaded_rpms pkg)"
proof (cases "map_of (rpm_by_name downloaded_rpms) (pkg_name pkg)")
  case (Some f)
  with assms show ?thesis by (simp add: verify_download_def found_result_well_formed)
next
  case None
  show ?thesis
  proof (cases "find (\<lambda>f. starts_with f (pkg_name pkg @ ''-'')) downloaded_rpms")
    case (Some f)
    with None assms show ?thesis by (simp add: verify_download_def found_result_well_formed)
  next
    case none: None
    with None show ?thesis by (simp add: verify_download_def well_formed_result_def)
  qed
qed

lemma download_packages_well_formed:
  assumes "\<forall>p. dw_sha256 dw p \<noteq> []"
    and "download_packages dw download_dir packages = Inr results"
  shows "\<forall>r \<in> set results. well_formed_result r"
proof (cases "packages = []")
  case True
  with assms(2) show ?thesis by (simp add: download_packages_def)
next
  case False
  with assms(2) have "results = verify_downloads dw download_dir packages"
    by (cases "dw_dnf_download dw") (simp_all add: download_packages_def)
  then show ?thesis
    using verify_download_well_formed[OF assms(1)] by (simp add: verify_downloads_def)
qed

lemma has_checksum_wf: "well_formed_result r \<Longrightarrow> has_checksum r = success r"
  by (auto simp: well_formed_result_def has_checksum_def split: if_splits option.splits)

text \<open>
  Claim C7. For every list of download results built as \<open>_verify_downloads\<close> builds
  them (a successful result carries its digest and its path), the checksums file is one
  line \<open><sha256>  <filename>\<close> per successful result, in ascending order of package
  name (results of one name keep their order), the lines joined by newlines and followed
  by one newline, and nothing else. With exactly one successful result the file is that
  result's line and the newline.
\<close>

theorem checksums_file_one_line_per_success:
  assumes "\<forall>r \<in> set results. well_formed_result r"
  shows "generate_checksums_file results =
           join_lines (map checksum_line (sort_key (\<lambda>r. pkg_name (package r)) (filter success results)))
           @ [CHR 0x0A] \<and>
         sorted (map (\<lambda>r. pkg_name (package r)) (sort_key (\<lambda>r. pkg_name (package r)) (filter success results))) \<and>
         (\<forall>k. filter (\<lambda>r. pkg_name (package r) = k)
                (sort_key (\<lambda>r. pkg_name (package r)) (filter success results)) =
              filter (\<lambda>r. pkg_name (package r) = k) (filter success results)) \<and>
         length (checksum_lines results) = length (filter success results) \<and>
         (\<forall>r. filter success results = [r] \<longrightarrow>
              generate_checksums_file results = checksum_line r @ [CHR 0x0A])"
proof -
  have f: "filter has_checksum (sort_key (\<lambda>r. pkg_name (package r)) results) =
           sort_key (\<lambda>r. pkg_name (package r)) (filter success results)"
  proof -
    have "filter has_checksum results = filter success results"
      using assms by (intro filter_cong refl) (simp add: has_checksum_wf)
    then show ?thesis by (simp add: filter_sort)
  qed
  have l: "checksum_lines results =
      map checksum_line (sort_key (\<lambda>r. pkg_name (package r)) (filter success results))"
    by (simp add: checksum_lines_def f)
  show ?thesis
    by (auto simp: generate_checksums_file_def l sort_key_stable)
qed

theorem checksums_file_one_line_per_success_witness:
  "list_all well_formed_result sample_results \<and>
   generate_checksums_file sample_results =
     ''cd34  bash-5.1.8-6.el9.x86_64.rpm'' @ [CHR 0x0A] @
     ''ab12  openssl-3.0.7-25.el9.x86_64.rpm'' @ [CHR 0x0A] \<and>
   generate_checksums_file [sample_result ''bash'' ''bash-5.1.8-6.el9.x86_64.rpm'' ''cd34''] =
     ''cd34  bash-5.1.8-6.el9.x86_64.rpm'' @ [CHR 0x0A]"
proof -
  have w: "list_all well_formed_result sample_results"
    by (simp add: sample_results_def well_formed_result_def sample_result_def failed_result_def)
  then have w': "\<forall>r \<in> set sample_results. well_formed_result r" by (simp add: list_all_iff)
  have e: "join_lines (map checksum_line
             (sort_key (\<lambda>r. pkg_name (package r)) (filter success sample_results))) @ [CHR 0x0A] =
     ''cd34  bash-5.1.8-6.el9.x86_64.rpm'' @ [CHR 0x0A] @
     ''ab12  openssl-3.0.7-25.el9.x86_64.rpm'' @ [CHR 0x0A]"
    by code_simp
  have w1: "\<forall>r \<in> set [sample_result ''bash'' ''bash-5.1.8-6.el9.x86_64.rpm'' ''cd34'']. well_formed_result r"
    by (simp add: well_formed_result_def sample_result_def)
  have f1: "filter success [sample_result ''bash'' ''bash-5.1.8-6.el9.x86_64.rpm'' ''cd34''] =
      [sample_result ''bash'' ''bash-5.1.8-6.el9.x86_64.rpm'' ''cd34'']"
    by (simp add: sample_result_def)
  have c1: "checksum_line (sample_result ''bash'' ''bash-5.1.8-6.el9.x86_64.rpm'' ''cd34'') =
      ''cd34  bash-5.1.8-6.el9.x86_64.rpm''"
    by (simp add: checksum_line_def sample_result_def path_name_def)
  from checksums_file_one_line_per_success[OF w'] e
  have a: "generate_checksums_file sample_results =
     ''cd34  bash-5.1.8-6.el9.x86_64.rpm'' @ [CHR 0x0A] @
     ''ab12  openssl-3.0.7-25.el9.x86_64.rpm'' @ [CHR 0x0A]"
    by simp
  from checksums_file_one_line_per_success[OF w1] f1 c1
  have b: "generate_checksums_file [sample_result ''bash'' ''bash-5.1.8-6.el9.x86_64.rpm'' ''cd34''] =
     ''cd34  bash-5.1.8-6.el9.x86_64.rpm'' @ [CHR 0x0A]"
    by simp
  from w a b show ?thesis by (intro conjI)
qed

subsection \<open>The builder\<close>

lemma map_of_filter_neq: "map_of (filter (\<lambda>(q, x). q \<noteq> p) t) p = None"
  by (induction t) auto

lemma map_of_filter_other: "q \<noteq> p \<Longrightarrow> map_of (filter (\<lambda>(q, x). q \<noteq> p) t) q = map_of t q"
  by (induction t) auto

lemma tree_write_same: "map_of (tree_write t p c) p = Some c"
  by (simp add: tree_write_def map_of_append map_add_def map_of_filter_neq)

lemma tree_write_other: "q \<noteq> p \<Longrightarrow> map_of (tree_write t p c) q = map_of t q"
  by (simp add: tree_write_def map_of_append map_add_def map_of_filter_other split: option.splits)

lemma map_of_members: "map_of (map (\<lambda>(p, c). (bid # p, c)) t) (bid # q) = map_of t q"
  by (induction t) auto

lemma build_log_log_msg [simp]:
  "build_log (log_msg w m b) = build_log b @ [log_entry w (length (build_log b)) m]"
  by (simp add: log_msg_def)

lemma log_msg_fields [simp]:
  "metadata (log_msg w m b) = metadata b"
  "bundle_id (log_msg w m b) = bundle_id b"
  "output_dir (log_msg w m b) = output_dir b"
  "work_dir (log_msg w m b) = work_dir b"
  "b_os_major (log_msg w m b) = b_os_major b"
  "manifest_dir (log_msg w m b) = manifest_dir b"
  by (simp_all add: log_msg_def)

lemma build_metadata_hash:
  assumes "build_metadata w b merger resolved_pkgs results = Inr md"
  shows "md_bundle_hash md = []"
proof (cases "get_host_summary merger")
  case (Inl e)
  with assms show ?thesis by (simp add: build_metadata_def)
next
  case hs: (Inr host_summary)
  show ?thesis
  proof (cases "get_package_to_hosts_map merger")
    case (Inl e)
    with assms hs show ?thesis by (simp add: build_metadata_def)
  next
    case (Inr package_hosts)
    with assms hs show ?thesis by (auto simp: build_metadata_def Let_def)
  qed
qed

lemma create_archive_result:
  assumes "create_archive w b tree fs = (fs', p, a)"
  shows "\<exists>codec. a = Compressed codec (Tar (map (\<lambda>(p, c). (bundle_id b # p, c)) tree)) \<and>
                 files fs' p = Some a"
  using assms by (cases "bw_zstd w") (auto simp: create_archive_def Let_def)

lemma finalize_sealed:
  assumes "finalize w b fs tree md = ((b', fs'), p)"
  shows "\<exists>a. sealed w b' md p a \<and> files fs' p = Some a \<and> bundle_id b' = bundle_id b \<and> work_dir b' = work_dir b"
proof -
  define b3 where "b3 = log_msg w ''Step 8: Finalizing'' (log_msg w ''  Metadata written'' (b\<lparr>metadata := Some md\<rparr>))"
  define tree2 where "tree2 = tree_write (tree_write tree [''metadata.json''] (MetadataDoc md))
      [''build.log''] (Text (join_lines (build_log b3) @ [CHR 0x0A]))"
  define b4 where "b4 = log_msg w ''Step 9: Creating archive'' b3"
  obtain fs1 p1 a where ca: "create_archive w b4 tree2 fs = (fs1, p1, a)"
    by (cases "create_archive w b4 tree2 fs") auto
  have "finalize w b fs tree md =
      (case create_archive w b4 tree2 fs of
         (fs', archive_path, archive) \<Rightarrow>
           ((log_msg w (''  SHA256: '' @ bw_file_hash w archive)
               (log_msg w (''  Bundle created: '' @ path_str archive_path) b4), fs'), archive_path))"
    unfolding finalize_def Let_def b3_def tree2_def b4_def ..
  with assms ca have "((log_msg w (''  SHA256: '' @ bw_file_hash w a)
               (log_msg w (''  Bundle created: '' @ path_str p1) b4), fs1), p1) = ((b', fs'), p)"
    by (simp only: prod.case)
  then have b': "b' = log_msg w (''  SHA256: '' @ bw_file_hash w a)
                               (log_msg w (''  Bundle created: '' @ path_str p1) b4)"
    and fs': "fs' = fs1" and p: "p = p1"
    by auto
  from create_archive_result[OF ca] obtain codec where
    a: "a = Compressed codec (Tar (map (\<lambda>(p, c). (bundle_id b4 # p, c)) tree2))"
    and f: "files fs1 p1 = Some a" by (elim exE conjE)
  have bid: "bundle_id b' = bundle_id b" "bundle_id b4 = bundle_id b" "work_dir b' = work_dir b"
    by (simp_all add: b' b4_def b3_def)
  have md: "metadata b' = Some md" by (simp add: b' b4_def b3_def)
  have m1: "map_of (map (\<lambda>(p, c). (bundle_id b # p, c)) tree2) [bundle_id b, ''metadata.json''] =
            Some (MetadataDoc md)"
    by (simp add: map_of_members tree2_def tree_write_other tree_write_same)
  have lg: "build_log b' = build_log b3 @
      [log_entry w (length (build_log b3)) ''Step 9: Creating archive'',
       log_entry w (length (build_log b3) + 1) (''  Bundle created: '' @ path_str p),
       log_entry w (length (build_log b3) + 2) (''  SHA256: '' @ bw_file_hash w a)]"
    by (simp add: b' b4_def p)
  have m2: "map_of (map (\<lambda>(p, c). (bundle_id b # p, c)) tree2) [bundle_id b, ''build.log''] =
            Some (Text (join_lines (build_log b3) @ [CHR 0x0A]))"
    by (simp add: map_of_members) (simp add: tree2_def tree_write_same)
  have ne: "build_log b3 \<noteq> []" by (simp add: b3_def)
  have ls: "last (build_log b3) = log_entry w (length (build_log b3) - 1) ''Step 8: Finalizing''"
    by (simp add: b3_def)
  have "sealed w b' md p a"
    unfolding sealed_def using a m1 m2 md ne ls lg by (simp add: bid)
  with f fs' p bid show ?thesis by simp
qed

lemma same_place_refl [simp]: "same_place b b"
  by (simp add: same_place_def)

lemma same_place_log [simp]: "same_place b (log_msg w m b') = same_place b b'"
  by (simp add: same_place_def)

lemma same_place_log_all [simp]: "same_place b (log_all w ms b') = same_place b b'"
  unfolding log_all_def by (induction ms arbitrary: b') simp_all

lemma load_manifests_place: "same_place b (fst (load_manifests w b))"
  by (auto simp: load_manifests_def Let_def split: sum.splits prod.splits)

lemma resolve_updates_place:
  assumes "same_place b0 b"
  shows "same_place b0 (fst (resolve_updates w merger b))"
proof (cases "get_merged_installed_rpms merger")
  case (Inl e)
  with assms show ?thesis by (simp add: resolve_updates_def)
next
  case (Inr merged_rpms)
  define b3 where "b3 = log_msg w ''Step 3: Resolving updates and dependencies''
      (log_msg w (''  Found '' @ str_nat (length (map fst merged_rpms)) @ '' unique packages'')
         (log_msg w ''Step 2: Merging installed packages'' b))"
  define resolver0 where "resolver0 = \<lparr>installed_packages = set (str_keys (map fst merged_rpms)),
      prefer_security = True, resolved = [], resolver_errors = []\<rparr>"
  have p3: "same_place b0 b3" using assms by (simp add: b3_def)
  obtain resolver1 r where rs: "resolve (bw_dnf w) resolver0 = (resolver1, r)"
    by (cases "resolve (bw_dnf w) resolver0")
  have ru: "resolve_updates w merger b =
      (case resolve (bw_dnf w) resolver0 of
                (resolver1, Inl e) \<Rightarrow> (b3, Inl e)
              | (resolver1, Inr resolved_pkgs) \<Rightarrow>
                  (let b4 = log_msg w (''  Resolved '' @ str_nat (length resolved_pkgs) @ '' packages'') b3;
                       b5 = log_all w (map (\<lambda>error. ''  Warning: '' @ error) (resolver_errors resolver1)) b4;
                       b6 = (if resolved_pkgs = []
                             then log_msg w ''  No updates available - creating empty bundle'' b5 else b5)
                   in (b6, Inr resolved_pkgs)))"
    unfolding resolve_updates_def Inr b3_def resolver0_def by (simp only: sum.case Let_def)
  show ?thesis
  proof (cases r)
    case (Inl e)
    with rs p3 show ?thesis unfolding ru by simp
  next
    case res: (Inr resolved_pkgs)
    with rs p3 show ?thesis unfolding ru by (simp add: Let_def)
  qed
qed

lemma download_rpms_place:
  assumes "same_place b0 b"
  shows "same_place b0 (fst (download_rpms w pkgs tree b))"
proof (cases "pkgs = []")
  case True
  with assms show ?thesis by (simp add: download_rpms_def)
next
  case False
  show ?thesis
  proof (cases "download_packages (bw_downloads w) (work_dir b @ [bundle_id b, ''rpms'']) pkgs")
    case (Inl e)
    with assms False show ?thesis by (simp add: download_rpms_def)
  next
    case (Inr results)
    with assms False show ?thesis by (simp add: download_rpms_def Let_def)
  qed
qed

lemma build_try_success:
  assumes "build_try w b fs = ((b', fs'), Inr p)"
  shows "\<exists>b7 tree md merger resolved_pkgs results.
           same_place b b7 \<and>
           build_metadata w b7 merger resolved_pkgs results = Inr md \<and>
           finalize w b7 fs tree md = ((b', fs'), p)"
proof -
  obtain b1 r1 where s1: "load_manifests w b = (b1, r1)" by (cases "load_manifests w b")
  have p1: "same_place b b1" using load_manifests_place[of b w] s1 by simp
  show ?thesis
  proof (cases r1)
    case (Inl e)
    with assms s1 show ?thesis by (simp add: build_try_def)
  next
    case (Inr mt)
    obtain merger tree1 where mt: "mt = (merger, tree1)" by (cases mt)
    obtain b2 r2 where s2: "resolve_updates w merger b1 = (b2, r2)"
      by (cases "resolve_updates w merger b1")
    have p2: "same_place b b2" using resolve_updates_place[OF p1, of w merger] s2 by simp
    show ?thesis
    proof (cases r2)
      case (Inl e)
      with assms s1 Inr mt s2 show ?thesis by (simp add: build_try_def)
    next
      case res: (Inr resolved_pkgs)
      obtain b3 r3 where s3: "download_rpms w resolved_pkgs tree1 b2 = (b3, r3)"
        by (cases "download_rpms w resolved_pkgs tree1 b2")
      have p3: "same_place b b3"
        using download_rpms_place[OF p2, of w resolved_pkgs tree1] s3 by simp
      show ?thesis
      proof (cases r3)
        case (Inl e)
        with assms s1 Inr mt s2 res s3 show ?thesis by (simp add: build_try_def)
      next
        case dl: (Inr rt)
        obtain results tree2 where rt: "rt = (results, tree2)" by (cases rt)
        show ?thesis
        proof (cases "generate_repodata w")
          case (Inl e)
          with assms s1 Inr mt s2 res s3 dl rt show ?thesis by (simp add: build_try_def Let_def)
        next
          case rp: (Inr u)
          define b7 where "b7 = log_msg w ''Step 7: Building metadata''
             (log_msg w ''Step 6: Generating checksums''
               (log_msg w ''  Repodata generated'' (log_msg w ''Step 5: Generating repodata'' b3)))"
          define tree4 where "tree4 = tree_write
              (fold (\<lambda>(p, c) t. tree_write t (''rpms'' # p) c) (bw_repodata w) tree2)
              [''SHA256SUMS''] (Text (generate_checksums_file results))"
          have p7: "same_place b b7" using p3 by (simp add: b7_def)
          have bt: "build_try w b fs =
              (case build_metadata w b7 merger resolved_pkgs results of
                 Inl e \<Rightarrow> ((b7, fs), Inl e)
               | Inr md \<Rightarrow> (case finalize w b7 fs tree4 md of (bf, archive_path) \<Rightarrow> (bf, Inr archive_path)))"
            by (simp only: build_try_def s1 Inr mt s2 res s3 dl rt rp b7_def tree4_def
                  prod.case sum.case Let_def)
          show ?thesis
          proof (cases "build_metadata w b7 merger resolved_pkgs results")
            case (Inl e)
            with assms bt show ?thesis by simp
          next
            case md: (Inr md)
            obtain bf ap where f: "finalize w b7 fs tree4 md = (bf, ap)"
              by (cases "finalize w b7 fs tree4 md")
            with assms bt md have "bf = (b', fs')" "ap = p" by simp_all
            with f have "finalize w b7 fs tree4 md = ((b', fs'), p)" by simp
            with p7 md show ?thesis by (intro exI conjI)
          qed
        qed
      qed
    qed
  qed
qed

lemma build_success:
  assumes "build w b fs = (b', fs', Inr archive_path)"
  shows "\<exists>b2 fs2 fs3.
           bundle_id b2 = ''bundle-rhel'' @ str_int (b_os_major b) @ ''-'' @ bw_stamp w \<and>
           work_dir b2 = work_dir b \<and>
           build_try w b2 fs2 = ((b', fs3), Inr archive_path) \<and>
           fs' = rmtree fs3 (work_dir b2 @ [bundle_id b2])"
proof -
  define b1 where "b1 = b\<lparr>bundle_id := ''bundle-rhel'' @ str_int (b_os_major b) @ ''-'' @ bw_stamp w\<rparr>"
  define b2 where "b2 = log_msg w (''Starting bundle build: '' @ bundle_id b1) b1"
  define wd where "wd = work_dir b @ [bundle_id b1]"
  have i2: "bundle_id b2 = ''bundle-rhel'' @ str_int (b_os_major b) @ ''-'' @ bw_stamp w"
    and w2: "work_dir b2 = work_dir b"
    by (simp_all add: b2_def b1_def)
  have wd2: "wd = work_dir b2 @ [bundle_id b2]"
    by (simp add: wd_def b2_def b1_def)
  have bd: "build w b fs =
     (case mkdir_p fs (wd @ [''rpms'']) of
           Inl e \<Rightarrow> (b2, fs, Inl e)
         | Inr fs1 \<Rightarrow>
             (case mkdir_p fs1 (wd @ [''manifests'']) of
                Inl e \<Rightarrow> (b2, fs1, Inl e)
              | Inr fs2 \<Rightarrow>
                  (case build_try w b2 fs2 of
                     ((b3, fs3), Inl e) \<Rightarrow>
                       (log_msg w (''ERROR: '' @ error_message w b3 e) b3, rmtree fs3 wd, Inl e)
                   | ((b3, fs3), Inr archive_path) \<Rightarrow>
                       (b3, rmtree fs3 wd, Inr archive_path))))"
    unfolding build_def Let_def b1_def b2_def wd_def ..
  show ?thesis
  proof (cases "mkdir_p fs (wd @ [''rpms''])")
    case (Inl e)
    with assms show ?thesis unfolding bd by simp
  next
    case m1: (Inr fs1)
    show ?thesis
    proof (cases "mkdir_p fs1 (wd @ [''manifests''])")
      case (Inl e)
      with assms m1 show ?thesis unfolding bd by simp
    next
      case m2: (Inr fs2)
      obtain b3 fs3 r where bt: "build_try w b2 fs2 = ((b3, fs3), r)"
        by (cases "build_try w b2 fs2") auto
      show ?thesis
      proof (cases r)
        case (Inl e)
        with assms m1 m2 bt show ?thesis unfolding bd by simp
      next
        case (Inr ap)
        with assms m1 m2 bt have e: "b3 = b'" "fs' = rmtree fs3 wd" "ap = archive_path"
          unfolding bd by simp_all
        have t: "build_try w b2 fs2 = ((b', fs3), Inr archive_path)"
          using bt Inr e by simp
        have f: "fs' = rmtree fs3 (work_dir b2 @ [bundle_id b2])"
          using e(2) unfolding wd2 .
        from i2 w2 t f show ?thesis by (intro exI conjI)
      qed
    qed
  qed
qed

text \<open>
  Claim C2, as the code has it. The build log file does not record the hash: on the
  sample build the \<open>build.log\<close> sealed in the archive, the one log file the build
  writes, has no \<open>SHA256\<close> line, while the last entry of \<open>self.build_log\<close> in memory
  is that line.
\<close>

theorem hash_missing_from_log_file:
  "snd (snd (build sample_build_world sample_builder empty_fs)) =
     Inr [''out'', ''bundle-rhel9-20240115T120000Z.tar.zst''] \<and>
   map_option (\<lambda>t. contains t ''SHA256'')
     (archived_log (fst (build sample_build_world sample_builder empty_fs))
        (fst (snd (build sample_build_world sample_builder empty_fs)))
        [''out'', ''bundle-rhel9-20240115T120000Z.tar.zst'']) = Some False \<and>
   last (build_log (fst (build sample_build_world sample_builder empty_fs))) =
     ''[2024-01-15T12:00:28]   SHA256: f00d''"
proof (intro conjI)
  show "snd (snd (build sample_build_world sample_builder empty_fs)) =
     Inr [''out'', ''bundle-rhel9-20240115T120000Z.tar.zst'']"
    by code_simp
  show "map_option (\<lambda>t. contains t ''SHA256'')
     (archived_log (fst (build sample_build_world sample_builder empty_fs))
        (fst (snd (build sample_build_world sample_builder empty_fs)))
        [''out'', ''bundle-rhel9-20240115T120000Z.tar.zst'']) = Some False"
    by code_simp
  show "last (build_log (fst (build sample_build_world sample_builder empty_fs))) =
     ''[2024-01-15T12:00:28]   SHA256: f00d''"
    by code_simp
qed

text \<open>
  Claim C2, amended. For every successful build, the metadata document sealed in the
  archive (and kept in \<open>self.metadata\<close>) has an empty \<open>bundle_hash\<close>; the SHA-256 is
  that of the finished, compressed archive, which contains that metadata document, and it
  is recorded as the last entry of the builder's in-memory log \<open>self.build_log\<close>, not in
  the log file: the \<open>build.log\<close> sealed in the archive was written at step 8 and holds
  exactly the entries up to \<open>Step 8: Finalizing\<close>, three entries short of the log. The
  archive is the file left at the returned path, unless that path lies inside the removed
  working tree.
\<close>

theorem metadata_bundle_hash_stays_empty:
  assumes "build w b fs = (b', fs', Inr archive_path)"
  shows "\<exists>md codec members logged.
           metadata b' = Some md \<and> md_bundle_hash md = [] \<and>
           map_of members [bundle_id b', ''metadata.json''] = Some (MetadataDoc md) \<and>
           map_of members [bundle_id b', ''build.log''] =
             Some (Text (join_lines logged @ [CHR 0x0A])) \<and>
           logged \<noteq> [] \<and>
           last logged = log_entry w (length logged - 1) ''Step 8: Finalizing'' \<and>
           build_log b' = logged @
             [log_entry w (length logged) ''Step 9: Creating archive'',
              log_entry w (length logged + 1) (''  Bundle created: '' @ path_str archive_path),
              log_entry w (length logged + 2)
                (''  SHA256: '' @ bw_file_hash w (Compressed codec (Tar members)))] \<and>
           (take (length (work_dir b' @ [bundle_id b'])) archive_path \<noteq> work_dir b' @ [bundle_id b']
              \<longrightarrow> files fs' archive_path = Some (Compressed codec (Tar members)))"
proof -
  from build_success[OF assms] obtain b2 fs2 fs3 where
    bt: "build_try w b2 fs2 = ((b', fs3), Inr archive_path)" and
    fs': "fs' = rmtree fs3 (work_dir b2 @ [bundle_id b2])"
    by (elim exE conjE)
  from build_try_success[OF bt] obtain b7 tree md merger resolved_pkgs results where
    p7: "same_place b2 b7" and
    bm: "build_metadata w b7 merger resolved_pkgs results = Inr md" and
    fin: "finalize w b7 fs2 tree md = ((b', fs3), archive_path)"
    by (elim exE conjE)
  from finalize_sealed[OF fin] obtain a where
    sl: "sealed w b' md archive_path a" and fl: "files fs3 archive_path = Some a" and
    i3: "bundle_id b' = bundle_id b7" and w3: "work_dir b' = work_dir b7"
    by (elim exE conjE)
  have wd': "work_dir b2 @ [bundle_id b2] = work_dir b' @ [bundle_id b']"
    using p7 i3 w3 by (simp add: same_place_def)
  from sl obtain codec members logged where
    a: "a = Compressed codec (Tar members)" and
    q1: "map_of members [bundle_id b', ''metadata.json''] = Some (MetadataDoc md)" and
    q2: "map_of members [bundle_id b', ''build.log''] =
          Some (Text (join_lines logged @ [CHR 0x0A]))" and
    q3: "metadata b' = Some md" and q4: "logged \<noteq> []" and
    q5: "last logged = log_entry w (length logged - 1) ''Step 8: Finalizing''" and
    q6: "build_log b' = logged @
          [log_entry w (length logged) ''Step 9: Creating archive'',
           log_entry w (length logged + 1) (''  Bundle created: '' @ path_str archive_path),
           log_entry w (length logged + 2) (''  SHA256: '' @ bw_file_hash w a)]"
    unfolding sealed_def by (elim exE conjE)
  have h: "md_bundle_hash md = []" using bm by (rule build_metadata_hash)
  have fsx: "take (length (work_dir b' @ [bundle_id b'])) archive_path \<noteq> work_dir b' @ [bundle_id b']
              \<longrightarrow> files fs' archive_path = Some (Compressed codec (Tar members))"
    using fl unfolding fs' wd' a by (simp add: rmtree_def)
  from q3 h q1 q2 q4 q5 q6[unfolded a] fsx show ?thesis by (intro exI conjI)
qed

theorem metadata_bundle_hash_stays_empty_witness:
  "snd (snd (build sample_build_world sample_builder empty_fs)) =
     Inr [''out'', ''bundle-rhel9-20240115T120000Z.tar.zst''] \<and>
   (\<exists>md. metadata (fst (build sample_build_world sample_builder empty_fs)) = Some md \<and>
         md_bundle_hash md = []) \<and>
   (\<exists>logged rest. build_log (fst (build sample_build_world sample_builder empty_fs)) =
         logged @ rest @ [''[2024-01-15T12:00:28]   SHA256: f00d''] \<and>
       archived_log (fst (build sample_build_world sample_builder empty_fs))
         (fst (snd (build sample_build_world sample_builder empty_fs)))
         [''out'', ''bundle-rhel9-20240115T120000Z.tar.zst''] =
       Some (join_lines logged @ [CHR 0x0A]))"
proof -
  have r: "snd (snd (build sample_build_world sample_builder empty_fs)) =
     Inr [''out'', ''bundle-rhel9-20240115T120000Z.tar.zst'']"
    by code_simp
  have l: "last (build_log (fst (build sample_build_world sample_builder empty_fs))) =
     ''[2024-01-15T12:00:28]   SHA256: f00d''"
    by code_simp
  obtain b' fs' where b: "build sample_build_world sample_builder empty_fs =
      (b', fs', Inr [''out'', ''bundle-rhel9-20240115T120000Z.tar.zst''])"
    using r by (cases "build sample_build_world sample_builder empty_fs") auto
  have "work_dir (fst (build sample_build_world sample_builder empty_fs)) =
      [''/'', ''tmp'', ''bundle-build'']"
    by code_simp
  then have "work_dir b' = [''/'', ''tmp'', ''bundle-build'']" unfolding b by simp
  then have wd: "take (length (work_dir b' @ [bundle_id b'])) [''out'', ''bundle-rhel9-20240115T120000Z.tar.zst'']
              \<noteq> work_dir b' @ [bundle_id b']"
    by simp
  from metadata_bundle_hash_stays_empty[OF b] obtain md codec members logged where
    m: "metadata b' = Some md" "md_bundle_hash md = []" and
    lf: "map_of members [bundle_id b', ''build.log''] = Some (Text (join_lines logged @ [CHR 0x0A]))" and
    lg: "build_log b' = logged @
             [log_entry sample_build_world (length logged) ''Step 9: Creating archive'',
              log_entry sample_build_world (length logged + 1)
                (''  Bundle created: '' @ path_str [''out'', ''bundle-rhel9-20240115T120000Z.tar.zst'']),
              log_entry sample_build_world (length logged + 2)
                (''  SHA256: '' @ bw_file_hash sample_build_world (Compressed codec (Tar members)))]" and
    fl: "take (length (work_dir b' @ [bundle_id b'])) [''out'', ''bundle-rhel9-20240115T120000Z.tar.zst'']
              \<noteq> work_dir b' @ [bundle_id b']
           \<longrightarrow> files fs' [''out'', ''bundle-rhel9-20240115T120000Z.tar.zst''] =
                 Some (Compressed codec (Tar members))"
    by (elim exE conjE)
  from fl wd have f: "files fs' [''out'', ''bundle-rhel9-20240115T120000Z.tar.zst''] =
                 Some (Compressed codec (Tar members))" by (rule mp)
  have al: "archived_log b' fs' [''out'', ''bundle-rhel9-20240115T120000Z.tar.zst''] =
      Some (join_lines logged @ [CHR 0x0A])"
    by (simp add: archived_log_def f lf)
  have ll: "last (build_log b') = ''[2024-01-15T12:00:28]   SHA256: f00d''"
    using l unfolding b by simp
  have "build_log b' = logged @
             [log_entry sample_build_world (length logged) ''Step 9: Creating archive'',
              log_entry sample_build_world (length logged + 1)
                (''  Bundle created: '' @ path_str [''out'', ''bundle-rhel9-20240115T120000Z.tar.zst''])] @
             [''[2024-01-15T12:00:28]   SHA256: f00d'']"
    using lg ll by simp
  with al have "\<exists>logged rest. build_log b' = logged @ rest @ [''[2024-01-15T12:00:28]   SHA256: f00d''] \<and>
       archived_log b' fs' [''out'', ''bundle-rhel9-20240115T120000Z.tar.zst''] =
       Some (join_lines logged @ [CHR 0x0A])"
    by blast
  moreover from m have "\<exists>md. metadata b' = Some md \<and> md_bundle_hash md = []" by simp
  ultimately show ?thesis using r unfolding b by simp
qed

text \<open>
  Claim C10. For every \<open>os_major\<close> other than 8 and 9 both constructors raise
  \<open>ValueError\<close> and nothing else has happened by then (the builder's constructor has
  created no directory); so a merger or a builder that was constructed has 8 or 9 as its
  OS major.
\<close>

theorem unsupported_os_major_is_rejected:
  "(n \<noteq> 8 \<and> n \<noteq> 9 \<longrightarrow>
      ManifestMerger_init n = Inl ValueError \<and>
      BundleBuilder_init n mdir odir wdir fs = (fs, Inl ValueError)) \<and>
   (ManifestMerger_init n = Inr m \<longrightarrow> os_major m = n \<and> (n = 8 \<or> n = 9)) \<and>
   (snd (BundleBuilder_init n mdir odir wdir fs) = Inr b \<longrightarrow> b_os_major b = n \<and> (n = 8 \<or> n = 9))"
proof (intro conjI impI)
  assume "n \<noteq> 8 \<and> n \<noteq> 9"
  then show "ManifestMerger_init n = Inl ValueError"
    and "BundleBuilder_init n mdir odir wdir fs = (fs, Inl ValueError)"
    by (simp_all add: ManifestMerger_init_def BundleBuilder_init_def)
next
  assume "ManifestMerger_init n = Inr m"
  then show "os_major m = n" and "n = 8 \<or> n = 9"
    by (auto simp: ManifestMerger_init_def split: if_splits)
next
  assume a: "snd (BundleBuilder_init n mdir odir wdir fs) = Inr b"
  then have n: "n = 8 \<or> n = 9"
    by (auto simp: BundleBuilder_init_def split: if_splits)
  then show "n = 8 \<or> n = 9" .
  from a n show "b_os_major b = n"
    by (auto simp: BundleBuilder_init_def Let_def split: if_splits sum.splits)
qed

theorem unsupported_os_major_is_rejected_witness:
  "ManifestMerger_init 7 = Inl ValueError \<and>
   BundleBuilder_init 7 [''manifests''] [''out''] None empty_fs = (empty_fs, Inl ValueError) \<and>
   ManifestMerger_init 9 = Inr merger9 \<and>
   snd (BundleBuilder_init 9 [''manifests''] [''out''] None empty_fs) = Inr sample_builder \<and>
   b_os_major sample_builder = 9"
proof -
  have m: "ManifestMerger_init 9 = Inr merger9"
    by (simp add: ManifestMerger_init_def merger9_def)
  have b: "snd (BundleBuilder_init 9 [''manifests''] [''out''] None empty_fs) = Inr sample_builder"
    by (simp add: BundleBuilder_init_def Let_def mkdir_p_def empty_fs_def sample_builder_def)
  from unsupported_os_major_is_rejected[of 7 "[''manifests'']" "[''out'']" None empty_fs merger9 sample_builder]
  have 1: "ManifestMerger_init 7 = Inl ValueError"
    and 2: "BundleBuilder_init 7 [''manifests''] [''out''] None empty_fs = (empty_fs, Inl ValueError)"
    by simp_all
  from unsupported_os_major_is_rejected[of 9 "[''manifests'']" "[''out'']" None empty_fs merger9 sample_builder] b
  have 3: "b_os_major sample_builder = 9" by simp
  from 1 2 m b 3 show ?thesis by (intro conjI)
qed

end
